theory Spec2Isabelle
  imports Complex_Main "HOL-Library.AList" "HOL-Library.Multiset" "HOL-Library.Log_Nat"
begin

section \<open>Consensus clustering of cemba_data (tools/clustering.py)\<close>

text \<open>
  The development embeds the functions of \<^verbatim>\<open>cemba_data/tools/clustering.py\<close>:
  the randomized Leiden ensemble, the k-modes metrics, the k selector, the cell filter
  and the two drivers. Python exceptions are values of \<open>error\<close>; a function that can
  raise returns \<open>error + 'a\<close> with \<open>Inl\<close> for the exception. Floats are real numbers
  (the specification excludes the floating-point behaviour of the libraries); the weighting
  of lines 123-127 is given a second time in double precision, every rounding written
  out. The external libraries (numpy's generator, leidenalg, kmodes, the process pool's
  completion order) are parameters.
\<close>

subsection \<open>Errors\<close>

datatype key = Name string | Resolution real | K int

datatype error =
    KeyError key
  | AttributeError
  | TypeError
  | ValueError
  | ZeroDivisionError

definition err_bind :: "error + 'a \<Rightarrow> ('a \<Rightarrow> error + 'b) \<Rightarrow> error + 'b" where
  "err_bind m f = (case m of Inl e \<Rightarrow> Inl e | Inr x \<Rightarrow> f x)"

subsection \<open>Result bundle\<close>

text \<open>
  The dictionary returned by \<^verbatim>\<open>_kmode_on_multi_leiden\<close>. Cells are the positions
  \<open>0..<N\<close> of the ensemble's index; a Series keyed by cluster or by cell is an
  association list in the Series' own order.
\<close>

record result_dict =
  rd_cluster :: "nat list"
  rd_n_cluster :: nat
  rd_cluster_pureness :: "(nat \<times> real) list"
  rd_weighted_cluster_pureness :: "(nat \<times> real) list"
  rd_cluster_completeness :: "(nat \<times> real) list"
  rd_weighted_cluster_completeness :: "(nat \<times> real) list"
  rd_cell_ambiguity :: "(nat \<times> real) list"
  rd_overall_pureness :: real
  rd_overall_completeness :: real
  rd_k :: int

text \<open>\<^verbatim>\<open>series.unique().size\<close>: the number of distinct values.\<close>

definition unique_size :: "'a list \<Rightarrow> nat" where
  "unique_size xs = length (remdups xs)"

subsection \<open>\<^verbatim>\<open>_kmode_on_multi_leiden\<close>\<close>

text \<open>
  The Label Ensemble Matrix: one column per run, keyed by the run's seed, each column
  holding one label per cell (cells by position). Leiden labels are the membership
  integers; their categorical order (natural sort of the strings) is the numeric order.
\<close>

type_synonym ensemble = "(nat \<times> nat list) list"

text \<open>\<^verbatim>\<open>(series == v).sum()\<close> is \<open>count_list\<close>. \<^verbatim>\<open>series.mode()\<close> returns every most
  frequent value, in sorted order.\<close>

definition modes :: "nat list \<Rightarrow> nat list" where
  "modes xs = filter (\<lambda>v. count_list xs v = fold max (map (count_list xs) xs) 0) (sort (remdups xs))"

text \<open>The rows of one group of \<^verbatim>\<open>results.groupby(final_cluster)\<close>, read in one column.
  Groups are formed for the labels that occur, so a group is never empty and its mode
  exists (\<open>hd\<close> is applied to a non-empty list, see \<open>modes_nonempty\<close>).\<close>

definition sub_column :: "nat list \<Rightarrow> nat \<Rightarrow> nat list \<Rightarrow> nat list" where
  "sub_column final_cluster c col = map fst (filter (\<lambda>(l, cl). cl = c) (zip col final_cluster))"

definition all_modes :: "ensemble \<Rightarrow> nat list \<Rightarrow> nat \<Rightarrow> nat list" where
  "all_modes results final_cluster c =
     map (\<lambda>(seed, col). hd (modes (sub_column final_cluster c col))) results"

definition np_mean :: "real list \<Rightarrow> real" where
  "np_mean xs = sum_list xs / real (length xs)"

definition col_pureness :: "nat list \<Rightarrow> nat \<Rightarrow> nat list \<Rightarrow> real" where
  "col_pureness final_cluster c col =
     (let sub = sub_column final_cluster c col;
          sub_rows = count_list final_cluster c;
          mode_count = count_list sub (hd (modes sub))
      in real mode_count / real sub_rows)"

definition col_completeness :: "nat list \<Rightarrow> nat \<Rightarrow> nat list \<Rightarrow> real" where
  "col_completeness final_cluster c col =
     (let sub = sub_column final_cluster c col;
          mode_count = count_list sub (hd (modes sub));
          total_mode_count = count_list col (hd (modes sub))
      in real mode_count / real total_mode_count)"

definition groups :: "nat list \<Rightarrow> nat list" where
  "groups final_cluster = sort (remdups final_cluster)"

definition pureness_records :: "ensemble \<Rightarrow> nat list \<Rightarrow> (nat \<times> real) list" where
  "pureness_records results final_cluster =
     map (\<lambda>c. (c, np_mean (map (\<lambda>(seed, col). col_pureness final_cluster c col) results)))
       (groups final_cluster)"

definition completeness_records :: "ensemble \<Rightarrow> nat list \<Rightarrow> (nat \<times> real) list" where
  "completeness_records results final_cluster =
     map (\<lambda>c. (c, np_mean (map (\<lambda>(seed, col). col_completeness final_cluster c col) results)))
       (groups final_cluster)"

text \<open>Lines 116-118: the row of a cell against its cluster's modes, column by column.\<close>

definition cell_row :: "ensemble \<Rightarrow> nat \<Rightarrow> nat list" where
  "cell_row results cell = map (\<lambda>(seed, col). col ! cell) results"

definition match_count :: "nat list \<Rightarrow> nat list \<Rightarrow> nat" where
  "match_count row ms = length (filter (\<lambda>(a, b). a = b) (zip row ms))"

definition cell_ambiguity :: "ensemble \<Rightarrow> nat list \<Rightarrow> nat \<Rightarrow> real" where
  "cell_ambiguity results final_cluster cell =
     (let ncols = length results;
          portion = real (match_count (cell_row results cell)
                            (all_modes results final_cluster (final_cluster ! cell))) / real ncols
      in 1 - portion)"

definition cell_ambiguity_records :: "ensemble \<Rightarrow> nat list \<Rightarrow> (nat \<times> real) list" where
  "cell_ambiguity_records results final_cluster =
     concat (map (\<lambda>c. map (\<lambda>cell. (cell, cell_ambiguity results final_cluster cell))
                          (filter (\<lambda>cell. final_cluster ! cell = c) [0..<length final_cluster]))
              (groups final_cluster))"

text \<open>\<^verbatim>\<open>final_cluster.value_counts() / final_cluster.size\<close>, read at one cluster, and the
  weighted Series, both as exact quotients and products.\<close>

definition final_portion :: "nat list \<Rightarrow> nat \<Rightarrow> real" where
  "final_portion final_cluster c = real (count_list final_cluster c) / real (length final_cluster)"

definition weighted :: "nat list \<Rightarrow> (nat \<times> real) list \<Rightarrow> (nat \<times> real) list" where
  "weighted final_cluster records = map (\<lambda>(c, x). (c, x * final_portion final_cluster c)) records"

text \<open>The bundle computed from the matrix and the labels that \<^verbatim>\<open>km.fit_predict\<close>
  returned (lines 89-139). Its weighted and overall values are the exact ones; the
  doubles that lines 123-127 compute from the same per-cluster values are
  \<open>final_portion64\<close>, \<open>weighted64\<close> and \<open>overall64\<close> below.\<close>

definition kmode_bundle :: "ensemble \<Rightarrow> nat list \<Rightarrow> int \<Rightarrow> result_dict" where
  "kmode_bundle results final_cluster k =
     (let pureness = pureness_records results final_cluster;
          completeness = completeness_records results final_cluster;
          weighted_cluster_pureness = weighted final_cluster pureness;
          weighted_cluster_completeness = weighted final_cluster completeness
      in \<lparr>rd_cluster = final_cluster,
          rd_n_cluster = unique_size final_cluster,
          rd_cluster_pureness = pureness,
          rd_weighted_cluster_pureness = weighted_cluster_pureness,
          rd_cluster_completeness = completeness,
          rd_weighted_cluster_completeness = weighted_cluster_completeness,
          rd_cell_ambiguity = cell_ambiguity_records results final_cluster,
          rd_overall_pureness = sum_list (map snd weighted_cluster_pureness),
          rd_overall_completeness = sum_list (map snd weighted_cluster_completeness),
          rd_k = k\<rparr>)"

text \<open>\<^verbatim>\<open>KModes(n_clusters=k).fit_predict\<close> is external: it returns one cluster label per
  row or raises.\<close>

definition kmode_on_multi_leiden ::
  "(ensemble \<Rightarrow> int \<Rightarrow> error + nat list) \<Rightarrow> ensemble \<Rightarrow> int \<Rightarrow> error + result_dict" where
  "kmode_on_multi_leiden fit_predict multi_leiden_result k =
     err_bind (fit_predict multi_leiden_result k) (\<lambda>clusters.
       Inr (kmode_bundle multi_leiden_result clusters k))"

text \<open>The shape that pandas and \<^verbatim>\<open>fit_predict\<close> guarantee: at least one run column, at
  least one cell, and one label per cell in every column and in the cluster vector.\<close>

definition rectangular :: "ensemble \<Rightarrow> nat list \<Rightarrow> bool" where
  "rectangular results final_cluster =
     (results \<noteq> [] \<and> final_cluster \<noteq> []
      \<and> list_all (\<lambda>(seed, col). length col = length final_cluster) results)"

subsection \<open>Lines 123-127 in double precision\<close>

text \<open>
  pandas holds \<^verbatim>\<open>final_portion\<close> and the weighted Series as float64: the division of
  line 123, the products of lines 124 and 126 and the additions of \<^verbatim>\<open>.sum()\<close> at lines
  125 and 127 each round their exact result to the nearest double, a tie going to the
  even significand. \<open>fl\<close> is that rounding for a real within the range of the doubles:
  \<open>binade x\<close> is the exponent \<open>e\<close> with \<open>2^e \<le> x < 2^(e+1)\<close> of a positive \<open>x\<close>, raised
  to -1022 where the doubles are subnormal, and the significand has 53 bits.
\<close>

definition round_even :: "real \<Rightarrow> int" where
  "round_even y = (let f = \<lfloor>y\<rfloor>; r = y - of_int f
                  in if r < 1 / 2 then f else if 1 / 2 < r then f + 1
                     else if even f then f else f + 1)"

definition binade :: "real \<Rightarrow> int" where
  "binade x = (if 1 \<le> x then bitlen \<lfloor>x\<rfloor> - 1 else - bitlen (\<lceil>1 / x\<rceil> - 1))"

definition fl :: "real \<Rightarrow> real" where
  "fl x = (if x = 0 then 0
           else let e = max (binade \<bar>x\<bar>) (- 1022)
                in of_int (round_even (x * 2 powi (52 - e))) * 2 powi (e - 52))"

text \<open>Line 123, read at one cluster, and lines 124 and 126, on the records of a Series
  of per-cluster values (both Series carry the clusters in ascending order).\<close>

definition final_portion64 :: "nat list \<Rightarrow> nat \<Rightarrow> real" where
  "final_portion64 final_cluster c =
     fl (real (count_list final_cluster c) / real (length final_cluster))"

definition weighted64 :: "nat list \<Rightarrow> (nat \<times> real) list \<Rightarrow> (nat \<times> real) list" where
  "weighted64 final_cluster records =
     map (\<lambda>(c, x). (c, fl (x * final_portion64 final_cluster c))) records"

text \<open>\<^verbatim>\<open>Series.sum()\<close> (lines 125 and 127) adds fewer than eight values one after the
  other, starting from 0. numpy adds a longer array in blocks; the sum is left
  undefined there.\<close>

definition sum64 :: "real list \<Rightarrow> real option" where
  "sum64 xs = (if length xs < 8 then Some (foldl (\<lambda>s x. fl (s + x)) 0 xs) else None)"

definition overall64 :: "nat list \<Rightarrow> (nat \<times> real) list \<Rightarrow> real option" where
  "overall64 final_cluster records = sum64 (map snd (weighted64 final_cluster records))"



subsection \<open>\<^verbatim>\<open>_select_optimal_k\<close>\<close>

text \<open>
  \<open>kmode_results\<close> is the dict \<open>k \<rightarrow> result_dict\<close> as a list, in the order in which the
  rows of \<open>overall_df\<close> come out (the dict's iteration order; a pandas that sorts the
  index hands them over sorted by k).
  The sweep stores \<^verbatim>\<open>None\<close> for a resolution whose k range was empty, so the argument
  is optional: \<^verbatim>\<open>None.items()\<close> raises AttributeError.
\<close>

type_synonym kmode_results = "(int \<times> result_dict) list"

record overall_row =
  row_k :: int
  row_pureness :: real
  row_completeness :: real
  row_n_cluster :: nat

definition overall_df :: "kmode_results \<Rightarrow> overall_row list" where
  "overall_df kmode_results =
     map (\<lambda>(k, result_dict).
            \<lparr>row_k = k,
             row_pureness = rd_overall_pureness result_dict,
             row_completeness = rd_overall_completeness result_dict,
             row_n_cluster = unique_size (rd_cluster result_dict)\<rparr>) kmode_results"

text \<open>\<^verbatim>\<open>series.max()\<close>; \<open>None\<close> stands for the NaN of an empty column.\<close>

fun series_max :: "('a::linorder) list \<Rightarrow> 'a option" where
  "series_max [] = None"
| "series_max (x # xs) = Some (fold max xs x)"

definition pass_rows :: "real \<Rightarrow> real \<Rightarrow> overall_row list \<Rightarrow> overall_row list" where
  "pass_rows pureness_cutoff completeness_cutoff df =
     filter (\<lambda>r. row_pureness r > pureness_cutoff \<and> row_completeness r > completeness_cutoff) df"

text \<open>The loop of lines 187-191: append the row, break at the first row whose
  \<open>n_cluster\<close> equals \<open>n_cluster_max\<close>.\<close>

fun scan_rows :: "nat option \<Rightarrow> overall_row list \<Rightarrow> overall_row list" where
  "scan_rows n_cluster_max [] = []"
| "scan_rows n_cluster_max (row # rest) =
     (if Some (row_n_cluster row) = n_cluster_max then [row]
      else row # scan_rows n_cluster_max rest)"

text \<open>\<^verbatim>\<open>pd.DataFrame([])\<close> has no column \<open>k\<close>: indexing it raises KeyError.\<close>

definition select_optimal_k :: "kmode_results option \<Rightarrow> real \<Rightarrow> real \<Rightarrow> error + int" where
  "select_optimal_k kmode_results pureness_cutoff completeness_cutoff =
     (case kmode_results of
        None \<Rightarrow> Inl AttributeError
      | Some kr \<Rightarrow>
          (let df = overall_df kr;
               n_cluster_max = series_max (map row_n_cluster df);
               pass_cutoff = pass_rows pureness_cutoff completeness_cutoff df;
               rows = scan_rows n_cluster_max pass_cutoff
           in case series_max (map row_k rows) of
                None \<Rightarrow> Inl (KeyError (Name ''k''))
              | Some optimal_k \<Rightarrow> Inr optimal_k))"

subsection \<open>Per-cell annotation table\<close>

text \<open>
  A pandas DataFrame of per-cell annotations: an index of cells and named columns, each
  column giving a value to every index label. Indexing a column that does not exist
  raises KeyError, whatever the number of rows.
\<close>

datatype val = VFloat real | VInt nat | VBool bool | VStr string | VNaN

record cell_frame =
  cf_index :: "nat list"
  cf_columns :: "(string \<times> (nat \<Rightarrow> val)) list"

definition series_val :: "('a \<Rightarrow> val) \<Rightarrow> (nat \<times> 'a) list \<Rightarrow> nat \<Rightarrow> val" where
  "series_val f s i = (case map_of s i of None \<Rightarrow> VNaN | Some x \<Rightarrow> f x)"

definition frame_getcol :: "cell_frame \<Rightarrow> string \<Rightarrow> error + (nat \<Rightarrow> val)" where
  "frame_getcol df name =
     (case map_of (cf_columns df) name of
        None \<Rightarrow> Inl (KeyError (Name name))
      | Some c \<Rightarrow> Inr c)"

definition frame_setcol :: "cell_frame \<Rightarrow> string \<Rightarrow> (nat \<Rightarrow> val) \<Rightarrow> cell_frame" where
  "frame_setcol df name c = df\<lparr>cf_columns := AList.update name c (cf_columns df)\<rparr>"

text \<open>\<^verbatim>\<open>series.map(other)\<close>: look each value up in \<open>other\<close>, NaN where it is absent.\<close>

definition series_map :: "(nat \<Rightarrow> val) \<Rightarrow> (nat \<times> real) list \<Rightarrow> nat \<Rightarrow> val" where
  "series_map c other i =
     (case c i of
        VInt l \<Rightarrow> (case map_of other l of None \<Rightarrow> VNaN | Some x \<Rightarrow> VFloat x)
      | _ \<Rightarrow> VNaN)"

text \<open>Comparison with a float cutoff; NaN and non-floats compare false.\<close>

definition val_le :: "val \<Rightarrow> real \<Rightarrow> bool" where
  "val_le v c = (case v of VFloat x \<Rightarrow> x \<le> c | _ \<Rightarrow> False)"

text \<open>\<^verbatim>\<open>str\<close> of a non-negative integer label; the cluster column holds nothing else,
  and the float case of \<open>str_val\<close> is a placeholder that no row reaches.\<close>

definition digit_char :: "nat \<Rightarrow> char" where
  "digit_char d = char_of (48 + d)"

fun str_nat :: "nat \<Rightarrow> string" where
  "str_nat n = (if n < 10 then [digit_char n] else str_nat (n div 10) @ [digit_char (n mod 10)])"

definition str_val :: "val \<Rightarrow> string" where
  "str_val v = (case v of VInt l \<Rightarrow> str_nat l | VStr s \<Rightarrow> s | VBool b \<Rightarrow> (if b then ''True'' else ''False'')
                | _ \<Rightarrow> ''nan'')"

text \<open>The row-wise \<^verbatim>\<open>apply\<close> of line 227 on one row: the condition
  \<^verbatim>\<open>i['final_judge']\<close> is evaluated first, then \<^verbatim>\<open>i['cluster']\<close>.\<close>

definition mask_row :: "cell_frame \<Rightarrow> nat \<Rightarrow> error + val" where
  "mask_row cell_data i =
     err_bind (frame_getcol cell_data ''final_judge'') (\<lambda>fj.
       if fj i = VBool True
       then err_bind (frame_getcol cell_data ''cluster'') (\<lambda>c. Inr (VStr (str_val (c i))))
       else Inr VNaN)"

fun mask_rows :: "cell_frame \<Rightarrow> nat list \<Rightarrow> error + (nat \<times> val) list" where
  "mask_rows cell_data [] = Inr []"
| "mask_rows cell_data (i # rest) =
     err_bind (mask_row cell_data i) (\<lambda>v.
     err_bind (mask_rows cell_data rest) (\<lambda>vs. Inr ((i, v) # vs)))"

subsection \<open>\<^verbatim>\<open>_filter_cell_and_cluster\<close>\<close>

text \<open>
  Lines 203-229, statement by statement. The frame is built with the two columns
  \<open>LK_cell_ambiguity\<close> and \<open>LK_cluster\<close>; its index is the union of the two Series'
  indexes. Line 211 then reads the column \<open>cluster\<close>.
\<close>

definition filter_cell_and_cluster :: "result_dict \<Rightarrow> real \<Rightarrow> real \<Rightarrow> error + cell_frame" where
  "filter_cell_and_cluster result_dict cell_ambiguity_cutoff cluster_portion_cutoff =
     (let cluster_series = zip [0..<length (rd_cluster result_dict)] (rd_cluster result_dict);
          cell_data =
            \<lparr>cf_index = sort (remdups (map fst (rd_cell_ambiguity result_dict) @ map fst cluster_series)),
             cf_columns =
               [(''LK_cell_ambiguity'', series_val VFloat (rd_cell_ambiguity result_dict)),
                (''LK_cluster'', series_val VInt cluster_series)]\<rparr>;
          cluster_pureness = rd_cluster_pureness result_dict;
          cluster_completeness = rd_cluster_completeness result_dict
      in err_bind (frame_getcol cell_data ''cluster'') (\<lambda>c1.
         let cell_data = frame_setcol cell_data ''LK_cluster_pureness'' (series_map c1 cluster_pureness)
         in err_bind (frame_getcol cell_data ''cluster'') (\<lambda>c2.
         let cell_data = frame_setcol cell_data ''LK_cluster_completeness'' (series_map c2 cluster_completeness)
         in err_bind (frame_getcol cell_data ''LK_cell_ambiguity'') (\<lambda>amb.
         let ambiguity_judge = (\<lambda>i. val_le (amb i) cell_ambiguity_cutoff);
             pass_index = filter ambiguity_judge (cf_index cell_data)
         in err_bind (frame_getcol cell_data ''LK_cluster'') (\<lambda>cl.
         let pass_labels = map cl pass_index;
             pass_clusters =
               filter (\<lambda>l. real (count_list pass_labels l) > real (length pass_index) * cluster_portion_cutoff)
                 (remdups pass_labels);
             cluster_judge = (\<lambda>i. cl i \<in> set pass_clusters);
             cell_data = frame_setcol cell_data ''LK_final_judge''
                           (\<lambda>i. VBool (cluster_judge i \<and> ambiguity_judge i))
         in err_bind (mask_rows cell_data (cf_index cell_data)) (\<lambda>masked.
            Inr (frame_setcol cell_data ''LK_masked_cluster'' (series_val id masked))))))))"

subsection \<open>\<^verbatim>\<open>judge_leiden_kmode_results\<close>\<close>

datatype k_arg = Auto | KList "int list" | KScalar int

record parameters =
  p_resolutions :: "real list"
  p_kmode_ks :: k_arg
  p_hard_k_min :: int
  p_hard_k_max :: int
  p_leiden_repeats :: nat

type_synonym total_results = "real \<rightharpoonup> kmode_results option"

text \<open>The dataset object: the cell count, the neighbourhood graph if computed, the two
  slots of \<^verbatim>\<open>adata.uns\<close> written by the sweep, and the per-cell table \<^verbatim>\<open>adata.obs\<close>.\<close>

record 'g adata =
  ad_n_cells :: nat
  ad_neighbors :: "'g option"
  ad_leiden_kmode_results :: "total_results option"
  ad_leiden_kmode_parameter :: "parameters option"
  ad_obs :: "(string \<times> (nat \<Rightarrow> val)) list"

datatype message =
    Selected real int
  | GotCells nat nat
  | NoCombination
  | RunningLeiden nat real
  | TooExtreme real int
  | RunningKMode nat nat int int
  | SavedResults

text \<open>Lines 294-297: \<^verbatim>\<open>total_results[resolution]\<close> handed to \<^verbatim>\<open>_select_optimal_k\<close>.\<close>

definition resolution_k :: "total_results \<Rightarrow> real \<Rightarrow> real \<Rightarrow> real \<Rightarrow> error + int" where
  "resolution_k total_results pc cc resolution =
     (case total_results resolution of
        None \<Rightarrow> Inl (KeyError (Resolution resolution))
      | Some kmode_results \<Rightarrow> select_optimal_k kmode_results pc cc)"

text \<open>The loop of lines 293-302 with its state \<open>(best_resolution, max_opt_k)\<close> and the
  lines printed. \<^verbatim>\<open>_select_optimal_k\<close> returns an int whenever it returns, so the test
  \<^verbatim>\<open>opt_k is not None\<close> is always true.\<close>

fun judge_loop ::
  "total_results \<Rightarrow> real \<Rightarrow> real \<Rightarrow> real list \<Rightarrow> real option \<times> int \<times> message list
     \<Rightarrow> error + (real option \<times> int \<times> message list)" where
  "judge_loop total_results pc cc [] st = Inr st"
| "judge_loop total_results pc cc (resolution # rest) (best_resolution, max_opt_k, out) =
     err_bind (resolution_k total_results pc cc resolution) (\<lambda>opt_k.
       judge_loop total_results pc cc rest
         (if opt_k > max_opt_k
          then (Some resolution, opt_k, out @ [Selected resolution opt_k])
          else (best_resolution, max_opt_k, out @ [Selected resolution opt_k])))"

text \<open>\<^verbatim>\<open>total_results[best_resolution][max_opt_k]\<close>.\<close>

definition best_k_result :: "total_results \<Rightarrow> real \<Rightarrow> int \<Rightarrow> error + result_dict" where
  "best_k_result total_results best_resolution max_opt_k =
     (case total_results best_resolution of
        None \<Rightarrow> Inl (KeyError (Resolution best_resolution))
      | Some None \<Rightarrow> Inl TypeError
      | Some (Some kr) \<Rightarrow>
          (case map_of kr max_opt_k of
             None \<Rightarrow> Inl (KeyError (K max_opt_k))
           | Some b \<Rightarrow> Inr b))"

definition count_true :: "cell_frame \<Rightarrow> (nat \<Rightarrow> val) \<Rightarrow> nat" where
  "count_true cell_data c = length (filter (\<lambda>i. c i = VBool True) (cf_index cell_data))"

definition count_masked :: "cell_frame \<Rightarrow> (nat \<Rightarrow> val) \<Rightarrow> nat" where
  "count_masked cell_data c = unique_size (filter (\<lambda>v. v \<noteq> VNaN) (map c (cf_index cell_data)))"

text \<open>Lines 279-305: the two slots are read, the loop runs, and the bundle of the best
  resolution is fetched. \<open>None\<close> stands for \<^verbatim>\<open>best_resolution is None\<close>.\<close>

definition judge_select ::
  "'g adata \<Rightarrow> real \<Rightarrow> real \<Rightarrow> error + ((real \<times> int \<times> result_dict) option \<times> message list)" where
  "judge_select adata pureness_cutoff completeness_cutoff =
     (case ad_leiden_kmode_results adata of
        None \<Rightarrow> Inl (KeyError (Name ''leiden_kmode_results''))
      | Some total_results \<Rightarrow>
     (case ad_leiden_kmode_parameter adata of
        None \<Rightarrow> Inl (KeyError (Name ''leiden_kmode_parameter''))
      | Some parameters \<Rightarrow>
          err_bind (judge_loop total_results pureness_cutoff completeness_cutoff
                      (p_resolutions parameters) (None, - 1, []))
            (\<lambda>(best_resolution, max_opt_k, out).
               case best_resolution of
                 Some r \<Rightarrow>
                   err_bind (best_k_result total_results r max_opt_k) (\<lambda>b.
                     Inr (Some (r, max_opt_k, b), out))
               | None \<Rightarrow> Inr (None, out))))"

text \<open>Lines 309-314: the two counts printed and the columns copied to \<^verbatim>\<open>adata.obs\<close>.\<close>

definition attach_columns ::
  "'g adata \<Rightarrow> message list \<Rightarrow> cell_frame \<Rightarrow> error + ('g adata \<times> message list)" where
  "attach_columns adata out cell_data =
     err_bind (frame_getcol cell_data ''LK_final_judge'') (\<lambda>fj.
     err_bind (frame_getcol cell_data ''LK_masked_cluster'') (\<lambda>mc.
       Inr (adata\<lparr>ad_obs := fold (\<lambda>(name, c). AList.update name c)
                                  (cf_columns cell_data) (ad_obs adata)\<rparr>,
            out @ [GotCells (count_true cell_data fj) (count_masked cell_data mc)])))"

text \<open>Lines 304-318: filtering and attaching the columns, or the failure report.\<close>

definition judge_leiden_kmode_results ::
  "'g adata \<Rightarrow> real \<Rightarrow> real \<Rightarrow> real \<Rightarrow> real \<Rightarrow> error + ('g adata \<times> message list)" where
  "judge_leiden_kmode_results adata pureness_cutoff completeness_cutoff
       cell_ambiguity_cutoff cluster_portion_cutoff =
     err_bind (judge_select adata pureness_cutoff completeness_cutoff) (\<lambda>(best, out).
       case best of
         Some (best_resolution, max_opt_k, b) \<Rightarrow>
           err_bind (filter_cell_and_cluster b cell_ambiguity_cutoff cluster_portion_cutoff)
             (attach_columns adata out)
       | None \<Rightarrow> Inr (adata, out @ [NoCombination]))"

subsection \<open>\<^verbatim>\<open>_multi_leiden_clustering\<close> and \<^verbatim>\<open>_single_leiden\<close>\<close>

text \<open>\<^verbatim>\<open>range(0, n, step)\<close> and the slices \<^verbatim>\<open>random_states[i: min(i + step, n)]\<close>.\<close>

definition range0 :: "nat \<Rightarrow> nat \<Rightarrow> nat list" where
  "range0 n step = map (\<lambda>j. j * step) [0..<(n + step - 1) div step]"

definition random_state_chunks :: "nat \<Rightarrow> nat \<Rightarrow> nat list \<Rightarrow> nat list list" where
  "random_state_chunks n step random_states =
     map (\<lambda>i. take (min (i + step) n - i) (drop i random_states)) (range0 n step)"

text \<open>One worker: the runs of its chunk in order, one column per seed; an exception of
  \<^verbatim>\<open>find_partition\<close> ends the worker.\<close>

fun single_leiden :: "(nat \<Rightarrow> error + nat list) \<Rightarrow> nat list \<Rightarrow> error + ensemble" where
  "single_leiden find_partition [] = Inr []"
| "single_leiden find_partition (seed # rest) =
     err_bind (find_partition seed) (\<lambda>groups.
     err_bind (single_leiden find_partition rest) (\<lambda>df. Inr ((seed, groups) # df)))"

text \<open>\<^verbatim>\<open>as_completed\<close>: the futures are read in the order \<open>completion\<close> in which the workers
  finish (positions in the list of submitted futures); the first exception read is
  raised again.\<close>

fun collect :: "(error + 'a) list \<Rightarrow> nat list \<Rightarrow> error + 'a list" where
  "collect futures [] = Inr []"
| "collect futures (i # rest) =
     err_bind (futures ! i) (\<lambda>data.
     err_bind (collect futures rest) (\<lambda>ds. Inr (data # ds)))"

text \<open>
  \<open>choice seed_of_seeds n\<close> stands for \<^verbatim>\<open>np.random.seed(seed_of_seeds)\<close> followed by
  \<^verbatim>\<open>np.random.choice(range(99999), size=n, replace=False)\<close>, which raises ValueError when
  \<open>n\<close> exceeds the population. \<open>find_partition g resolution seed\<close> is leidenalg's run.
  \<^verbatim>\<open>pd.concat(results, axis=1)\<close> puts the chunks' columns one after the other in the order
  of \<open>results\<close> and raises ValueError on an empty list.
\<close>

definition sample_ok :: "(nat \<Rightarrow> nat \<Rightarrow> nat list) \<Rightarrow> nat \<Rightarrow> nat \<Rightarrow> bool" where
  "sample_ok choice seed_of_seeds n =
     (length (choice seed_of_seeds n) = n \<and> distinct (choice seed_of_seeds n)
      \<and> list_all (\<lambda>x. x < 99999) (choice seed_of_seeds n))"

definition multi_leiden_clustering ::
  "(nat \<Rightarrow> nat \<Rightarrow> nat list) \<Rightarrow> ('g \<Rightarrow> real \<Rightarrow> nat \<Rightarrow> error + nat list) \<Rightarrow> nat list
     \<Rightarrow> 'g adata \<Rightarrow> nat \<Rightarrow> nat \<Rightarrow> real \<Rightarrow> nat \<Rightarrow> error + ensemble" where
  "multi_leiden_clustering choice find_partition completion adata n seed_of_seeds resolution cpu =
     (case ad_neighbors adata of
        None \<Rightarrow> Inl ValueError
      | Some g \<Rightarrow>
          if n > 99999 then Inl ValueError
          else if cpu = 0 then Inl ZeroDivisionError
          else
            (let random_states = choice seed_of_seeds n;
                 step = max (n div cpu) 5;
                 chunks = random_state_chunks n step random_states;
                 futures = map (single_leiden (find_partition g resolution)) chunks
             in err_bind (collect futures completion) (\<lambda>results.
                  if results = [] then Inl ValueError else Inr (concat results))))"

subsection \<open>\<^verbatim>\<open>_multi_kmode_clustering\<close>\<close>

text \<open>\<^verbatim>\<open>range(start, stop, step)\<close> for a positive step.\<close>

definition py_range :: "int \<Rightarrow> int \<Rightarrow> int \<Rightarrow> int list" where
  "py_range start stop step =
     map (\<lambda>i. start + int i * step) [0..<nat ((stop - start + step - 1) div step)]"

text \<open>\<^verbatim>\<open>int(results.apply(lambda i: i.cat.categories.size, axis=0).mode())\<close>: the categories of
  a column are its distinct labels; \<^verbatim>\<open>int\<close> of a Series converts a Series of exactly one
  element and raises TypeError otherwise (several values tie, or no column).\<close>

definition mode_k_of :: "ensemble \<Rightarrow> error + int" where
  "mode_k_of results =
     (case modes (map (\<lambda>(seed, col). unique_size col) results) of
        [m] \<Rightarrow> Inr (int m)
      | _ \<Rightarrow> Inl TypeError)"

definition auto_ks_low :: "int \<Rightarrow> int list" where
  "auto_ks_low mode_k = py_range (max 2 (mode_k - 5)) (mode_k + 15) 1"

text \<open>A Python dict filled in the given order: a new key goes to the end, a key already
  present keeps its place and takes the new value.\<close>

definition dict_of :: "('k \<times> 'v) list \<Rightarrow> ('k \<times> 'v) list" where
  "dict_of kvs = fold (\<lambda>(k, v). AList.update k v) kvs []"

definition multi_kmode_clustering ::
  "(ensemble \<Rightarrow> int \<Rightarrow> error + nat list) \<Rightarrow> nat list \<Rightarrow> ensemble \<Rightarrow> k_arg \<Rightarrow> nat
     \<Rightarrow> error + kmode_results" where
  "multi_kmode_clustering fit_predict completion multi_leiden_result k cpu =
     err_bind
       (case k of
          Auto \<Rightarrow> err_bind (mode_k_of multi_leiden_result) (\<lambda>mode_k. Inr (auto_ks_low mode_k))
        | KList ks \<Rightarrow> Inr ks
        | KScalar _ \<Rightarrow> Inl TypeError)
       (\<lambda>ks.
          if cpu = 0 then Inl ValueError
          else
            (let futures = map (\<lambda>k. err_bind (kmode_on_multi_leiden fit_predict multi_leiden_result k)
                                         (\<lambda>data. Inr (k, data))) ks
             in err_bind (collect futures completion) (\<lambda>kvs. Inr (dict_of kvs))))"

subsection \<open>\<^verbatim>\<open>leiden_kmode_clustering\<close>\<close>

record 'g externals =
  ext_choice :: "nat \<Rightarrow> nat \<Rightarrow> nat list"
  ext_find_partition :: "'g \<Rightarrow> real \<Rightarrow> nat \<Rightarrow> error + nat list"
  ext_fit_predict :: "ensemble \<Rightarrow> int \<Rightarrow> error + nat list"
  ext_leiden_completion :: "real \<Rightarrow> nat list"
  ext_kmode_completion :: "real \<Rightarrow> nat list"

text \<open>Line 242: the ensemble of one resolution. The call passes \<^verbatim>\<open>n=300\<close>; the parameter
  \<open>leiden_repeats\<close> is only printed and stored.\<close>

definition resolution_ensemble ::
  "'g externals \<Rightarrow> 'g adata \<Rightarrow> nat \<Rightarrow> nat \<Rightarrow> real \<Rightarrow> error + ensemble" where
  "resolution_ensemble ext adata cpu leiden_repeats resolution =
     multi_leiden_clustering (ext_choice ext) (ext_find_partition ext)
       (ext_leiden_completion ext resolution) adata 300 0 resolution cpu"

definition auto_ks_top :: "int \<Rightarrow> int \<Rightarrow> int \<Rightarrow> int list" where
  "auto_ks_top mode_k hard_k_min hard_k_max =
     py_range (max (mode_k - 10) hard_k_min) (min (mode_k * 2) hard_k_max) 2"

text \<open>Lines 256-263 for a list of k values: \<^verbatim>\<open>np.array(ks).min()\<close> raises ValueError on an
  empty list.\<close>

definition run_kmode ::
  "'g externals \<Rightarrow> ensemble \<Rightarrow> nat \<Rightarrow> nat \<Rightarrow> real \<Rightarrow> int list
     \<Rightarrow> error + (kmode_results option \<times> message list)" where
  "run_kmode ext results cpu leiden_repeats resolution ks =
     (case ks of
        [] \<Rightarrow> Inl ValueError
      | k0 # ks' \<Rightarrow>
          (let kmin = fold min ks' k0;
               kmax = fold max ks' k0
           in err_bind (multi_kmode_clustering (ext_fit_predict ext)
                          (ext_kmode_completion ext resolution) results (KList ks) cpu)
                (\<lambda>kmode_results.
                   Inr (Some kmode_results,
                        [RunningLeiden leiden_repeats resolution,
                         RunningKMode leiden_repeats (length ks) kmin kmax]))))"

text \<open>The body of the loop over resolutions (lines 241-263): the value stored for the
  resolution and the lines printed.\<close>

definition sweep_resolution ::
  "'g externals \<Rightarrow> 'g adata \<Rightarrow> k_arg \<Rightarrow> nat \<Rightarrow> nat \<Rightarrow> int \<Rightarrow> int \<Rightarrow> real
     \<Rightarrow> error + (kmode_results option \<times> message list)" where
  "sweep_resolution ext adata kmode_ks cpu leiden_repeats hard_k_min hard_k_max resolution =
     err_bind (resolution_ensemble ext adata cpu leiden_repeats resolution) (\<lambda>results.
     err_bind (mode_k_of results) (\<lambda>mode_k.
       case kmode_ks of
         Auto \<Rightarrow>
           (let ks = auto_ks_top mode_k hard_k_min hard_k_max
            in if length ks = 0
               then Inr (None, [RunningLeiden leiden_repeats resolution, TooExtreme resolution mode_k])
               else run_kmode ext results cpu leiden_repeats resolution ks)
       | KList ks \<Rightarrow> run_kmode ext results cpu leiden_repeats resolution ks
       | KScalar _ \<Rightarrow> Inl TypeError))"

fun sweep_loop ::
  "(real \<Rightarrow> error + (kmode_results option \<times> message list)) \<Rightarrow> real list
     \<Rightarrow> total_results \<times> message list \<Rightarrow> error + (total_results \<times> message list)" where
  "sweep_loop body [] st = Inr st"
| "sweep_loop body (resolution # rest) (total_results, out) =
     err_bind (body resolution) (\<lambda>(stored, printed).
       sweep_loop body rest (total_results(resolution \<mapsto> stored), out @ printed))"

definition leiden_kmode_clustering ::
  "'g externals \<Rightarrow> 'g adata \<Rightarrow> real list \<Rightarrow> k_arg \<Rightarrow> nat \<Rightarrow> nat
     \<Rightarrow> error + ('g adata \<times> message list)" where
  "leiden_kmode_clustering ext adata resolutions kmode_ks cpu leiden_repeats =
     (let n_cells = ad_n_cells adata;
          hard_k_min = 5;
          hard_k_max = int (n_cells div 50)
      in err_bind (sweep_loop (sweep_resolution ext adata kmode_ks cpu leiden_repeats
                                 hard_k_min hard_k_max) resolutions (Map.empty, []))
           (\<lambda>(total_results, out).
              Inr (adata\<lparr>ad_leiden_kmode_results := Some total_results,
                         ad_leiden_kmode_parameter :=
                           Some \<lparr>p_resolutions = resolutions, p_kmode_ks = kmode_ks,
                                 p_hard_k_min = hard_k_min, p_hard_k_max = hard_k_max,
                                 p_leiden_repeats = leiden_repeats\<rparr>\<rparr>,
                   out @ [SavedResults])))"

subsection \<open>The selection rule in the specification's words\<close>

text \<open>Among the rows passing both cutoffs, the first row whose cluster count is the
  largest cluster count of the passing rows.\<close>

definition spec_first_seen_max_k :: "kmode_results \<Rightarrow> real \<Rightarrow> real \<Rightarrow> int option" where
  "spec_first_seen_max_k kr pureness_cutoff completeness_cutoff =
     (let passing = pass_rows pureness_cutoff completeness_cutoff (overall_df kr)
      in case series_max (map row_n_cluster passing) of
           None \<Rightarrow> None
         | Some m \<Rightarrow> map_option row_k (find (\<lambda>r. row_n_cluster r = m) passing))"

text \<open>Across resolutions, in the specification's words: the resolution whose selected k
  yields the strictly largest cluster count; a resolution without a selected k
  contributes nothing.\<close>

fun spec_best_resolution ::
  "total_results \<Rightarrow> real \<Rightarrow> real \<Rightarrow> real list \<Rightarrow> real option \<times> nat \<Rightarrow> real option \<times> nat" where
  "spec_best_resolution total_results pc cc [] st = st"
| "spec_best_resolution total_results pc cc (resolution # rest) (best, most) =
     spec_best_resolution total_results pc cc rest
       (case resolution_k total_results pc cc resolution of
          Inl e \<Rightarrow> (best, most)
        | Inr opt_k \<Rightarrow>
            (case best_k_result total_results resolution opt_k of
               Inl e \<Rightarrow> (best, most)
             | Inr b \<Rightarrow>
                 if best = None \<or> unique_size (rd_cluster b) > most
                 then (Some resolution, unique_size (rd_cluster b))
                 else (best, most)))"

subsection \<open>Concrete inputs\<close>

text \<open>One run (seed 7) over four cells, two Leiden communities of two cells each, and
  the bundles of three k-modes results on it: the two communities (k = 2), the same two
  groups with one of three clusters left empty (k = 3), and every cell alone (k = 4).\<close>

definition ex_matrix :: ensemble where
  "ex_matrix = [(7, [0, 0, 1, 1])]"

definition ex_bundle2 :: result_dict where
  "ex_bundle2 = kmode_bundle ex_matrix [0, 0, 1, 1] 2"

definition ex_bundle3 :: result_dict where
  "ex_bundle3 = kmode_bundle ex_matrix [0, 0, 2, 2] 3"

definition ex_bundle4 :: result_dict where
  "ex_bundle4 = kmode_bundle ex_matrix [0, 1, 2, 3] 4"

text \<open>A second run that splits the second community, clustered with k = 3 into its
  three groups, and the first run clustered with k = 4 into two groups only.\<close>

definition ex_matrix_fine :: ensemble where
  "ex_matrix_fine = [(7, [0, 0, 1, 2])]"

definition ex_bundle3_fine :: result_dict where
  "ex_bundle3_fine = kmode_bundle ex_matrix_fine [0, 0, 1, 2] 3"

definition ex_bundle4_sparse :: result_dict where
  "ex_bundle4_sparse = kmode_bundle ex_matrix [0, 0, 3, 3] 4"

definition ex_kmode_results :: kmode_results where
  "ex_kmode_results = [(2, ex_bundle2), (3, ex_bundle3), (4, ex_bundle4)]"

definition ex_parameters :: "real list \<Rightarrow> int list \<Rightarrow> parameters" where
  "ex_parameters resolutions ks =
     \<lparr>p_resolutions = resolutions, p_kmode_ks = KList ks,
      p_hard_k_min = 5, p_hard_k_max = 0, p_leiden_repeats = 300\<rparr>"

definition ex_adata :: "total_results \<Rightarrow> parameters \<Rightarrow> unit adata" where
  "ex_adata total_results ps =
     \<lparr>ad_n_cells = 4, ad_neighbors = Some (),
      ad_leiden_kmode_results = Some total_results,
      ad_leiden_kmode_parameter = Some ps,
      ad_obs = []\<rparr>"

text \<open>Stand-ins for the external libraries: a generator returning the first \<open>n\<close>
  naturals, a community detection returning the two communities of \<open>ex_matrix\<close>
  whatever the seed, a k-modes returning the same two groups, and one worker chunk.\<close>

definition ex_choice :: "nat \<Rightarrow> nat \<Rightarrow> nat list" where
  "ex_choice seed_of_seeds n = [0..<n]"

definition ex_find_partition :: "unit \<Rightarrow> real \<Rightarrow> nat \<Rightarrow> error + nat list" where
  "ex_find_partition g resolution seed = Inr [0, 0, 1, 1]"

definition ex_ext :: "unit externals" where
  "ex_ext =
     \<lparr>ext_choice = ex_choice, ext_find_partition = ex_find_partition,
      ext_fit_predict = (\<lambda>results k. Inr [0, 0, 1, 1]),
      ext_leiden_completion = (\<lambda>resolution. [0]),
      ext_kmode_completion = (\<lambda>resolution. [0])\<rparr>"

definition ex_fresh_adata :: "unit adata" where
  "ex_fresh_adata =
     \<lparr>ad_n_cells = 4, ad_neighbors = Some (),
      ad_leiden_kmode_results = None, ad_leiden_kmode_parameter = None, ad_obs = []\<rparr>"







section \<open>Properties\<close>

subsection \<open>Auxiliary facts\<close>

lemmas bundle_defs = kmode_bundle_def weighted_def pureness_records_def completeness_records_def
  groups_def np_mean_def col_pureness_def col_completeness_def sub_column_def modes_def
  final_portion_def Let_def unique_size_def

lemma err_bind_Inl: "err_bind (Inl e) f = Inl e"
  by (simp add: err_bind_def)

lemma err_bind_Inr: "err_bind (Inr x) f = f x"
  by (simp add: err_bind_def)

lemma err_bind_eq_Inr: "err_bind m f = Inr y \<longleftrightarrow> (\<exists>x. m = Inr x \<and> f x = Inr y)"
  by (cases m) (simp_all add: err_bind_def)

lemma series_max_Max: "xs \<noteq> [] \<Longrightarrow> series_max xs = Some (Max (set xs))"
proof (cases xs)
  case Nil
  assume "xs \<noteq> []"
  with Nil show ?thesis by simp
next
  case (Cons a list)
  then show ?thesis using Max.set_eq_fold[of a list] by simp
qed

lemma series_max_None: "series_max xs = None \<longleftrightarrow> xs = []"
  by (cases xs) simp_all

lemma scan_rows_split:
  "scan_rows (Some m) P =
     takeWhile (\<lambda>r. row_n_cluster r \<noteq> m) P @ take 1 (dropWhile (\<lambda>r. row_n_cluster r \<noteq> m) P)"
  by (induction P) auto

lemma scan_rows_nonempty: "P \<noteq> [] \<Longrightarrow> scan_rows n P \<noteq> []"
  by (cases P) auto

lemma scan_rows_subset: "set (scan_rows n P) \<subseteq> set P"
  by (induction P) auto

lemma pass_rows_subset: "set (pass_rows pc cc df) \<subseteq> set df"
  by (auto simp: pass_rows_def)

lemma select_optimal_k_value:
  assumes "pass_rows pc cc (overall_df kr) \<noteq> []"
  shows "select_optimal_k (Some kr) pc cc =
           Inr (Max (set (map row_k (scan_rows (Some (Max (set (map row_n_cluster (overall_df kr)))))
                                      (pass_rows pc cc (overall_df kr))))))"
proof -
  let ?m = "Max (set (map row_n_cluster (overall_df kr)))"
  let ?S = "scan_rows (Some ?m) (pass_rows pc cc (overall_df kr))"
  have df: "map row_n_cluster (overall_df kr) \<noteq> []" using assms by (auto simp: pass_rows_def)
  have m: "series_max (map row_n_cluster (overall_df kr)) = Some ?m"
    by (rule series_max_Max[OF df])
  have ne: "map row_k ?S \<noteq> []"
    using assms by (simp add: scan_rows_nonempty)
  have k: "series_max (map row_k ?S) = Some (Max (set (map row_k ?S)))"
    by (rule series_max_Max[OF ne])
  show ?thesis
    by (simp only: select_optimal_k_def Let_def m k option.case)
qed

lemma select_optimal_k_none_pass:
  assumes "pass_rows pc cc (overall_df kr) = []"
  shows "select_optimal_k (Some kr) pc cc = Inl (KeyError (Name ''k''))"
  using assms by (simp add: select_optimal_k_def)

lemma find_max_attained:
  fixes n :: "'a \<Rightarrow> nat"
  assumes "P \<noteq> []"
  shows "\<exists>r0. find (\<lambda>r. n r = Max (n ` set P)) P = Some r0 \<and> r0 \<in> set P \<and> n r0 = Max (n ` set P)"
proof -
  have "Max (n ` set P) \<in> n ` set P" using assms by (intro Max_in) auto
  then obtain r where "r \<in> set P" "n r = Max (n ` set P)" by auto
  then have "find (\<lambda>r. n r = Max (n ` set P)) P \<noteq> None" by (auto simp: find_None_iff)
  then obtain r0 where r0: "find (\<lambda>r. n r = Max (n ` set P)) P = Some r0" by auto
  then show ?thesis by (auto simp: find_Some_iff)
qed

lemma kept_max:
  fixes n :: "'a \<Rightarrow> nat"
  assumes "P \<noteq> []" "set P \<subseteq> D" "finite D" "m = Max (n ` D)"
  shows "Max (n ` set (takeWhile (\<lambda>r. n r \<noteq> m) P @ take 1 (dropWhile (\<lambda>r. n r \<noteq> m) P))) = Max (n ` set P)"
proof (cases "dropWhile (\<lambda>r. n r \<noteq> m) P")
  case Nil
  then have "\<forall>x\<in>set P. n x \<noteq> m" by simp
  then have "takeWhile (\<lambda>r. n r \<noteq> m) P = P" by (simp only: takeWhile_eq_all_conv)
  with Nil show ?thesis by (simp only: take.simps append_Nil2)
next
  case (Cons r rest)
  then have r: "n r = m" "r \<in> set P"
    using hd_dropWhile[of "\<lambda>r. n r \<noteq> m" P] set_dropWhileD[of r "\<lambda>r. n r \<noteq> m" P] by auto
  let ?kept = "takeWhile (\<lambda>r. n r \<noteq> m) P @ take 1 (dropWhile (\<lambda>r. n r \<noteq> m) P)"
  have sub: "set ?kept \<subseteq> set P"
    using set_takeWhileD[of _ "\<lambda>r. n r \<noteq> m" P] Cons r by auto
  have rin: "r \<in> set ?kept" using Cons by simp
  have le: "\<And>x. x \<in> set P \<Longrightarrow> n x \<le> m" using assms by (auto intro!: Max_ge)
  have "Max (n ` set ?kept) = m"
    using rin r sub le by (intro Max_eqI) auto
  moreover have "Max (n ` set P) = m"
    using r le by (intro Max_eqI) auto
  ultimately show ?thesis by simp
qed

lemma ex_overall_df:
  "overall_df ex_kmode_results =
     [\<lparr>row_k = 2, row_pureness = 1, row_completeness = 1, row_n_cluster = 2\<rparr>,
      \<lparr>row_k = 3, row_pureness = 1, row_completeness = 1, row_n_cluster = 2\<rparr>,
      \<lparr>row_k = 4, row_pureness = 1, row_completeness = 1/2, row_n_cluster = 4\<rparr>]"
  by (simp add: overall_df_def ex_kmode_results_def ex_bundle2_def ex_bundle3_def ex_bundle4_def
        ex_matrix_def bundle_defs)

lemma ex_overall_df24:
  "overall_df [(2, ex_bundle2), (4, ex_bundle4)] =
     [\<lparr>row_k = 2, row_pureness = 1, row_completeness = 1, row_n_cluster = 2\<rparr>,
      \<lparr>row_k = 4, row_pureness = 1, row_completeness = 1/2, row_n_cluster = 4\<rparr>]"
  using ex_overall_df by (simp add: overall_df_def ex_kmode_results_def)

lemma ex_overall_df4:
  "overall_df [(4, ex_bundle4)] =
     [\<lparr>row_k = 4, row_pureness = 1, row_completeness = 1/2, row_n_cluster = 4\<rparr>]"
  using ex_overall_df by (simp add: overall_df_def ex_kmode_results_def)

lemma filter_cell_and_cluster_raises:
  "filter_cell_and_cluster result_dict a c = Inl (KeyError (Name ''cluster''))"
  by (simp add: filter_cell_and_cluster_def Let_def frame_getcol_def err_bind_def)

lemma ex_overall_df2:
  "overall_df [(2, ex_bundle2)] =
     [\<lparr>row_k = 2, row_pureness = 1, row_completeness = 1, row_n_cluster = 2\<rparr>]"
  using ex_overall_df by (simp add: overall_df_def ex_kmode_results_def)

lemma ex_overall_df3:
  "overall_df [(3, ex_bundle3)] =
     [\<lparr>row_k = 3, row_pureness = 1, row_completeness = 1, row_n_cluster = 2\<rparr>]"
  using ex_overall_df by (simp add: overall_df_def ex_kmode_results_def)

lemma ex_overall_df3_fine:
  "overall_df [(3, ex_bundle3_fine)] =
     [\<lparr>row_k = 3, row_pureness = 1, row_completeness = 1, row_n_cluster = 3\<rparr>]"
  by (simp add: overall_df_def ex_bundle3_fine_def ex_matrix_fine_def bundle_defs)

lemma ex_overall_df4_sparse:
  "overall_df [(4, ex_bundle4_sparse)] =
     [\<lparr>row_k = 4, row_pureness = 1, row_completeness = 1, row_n_cluster = 2\<rparr>]"
  by (simp add: overall_df_def ex_bundle4_sparse_def ex_matrix_def bundle_defs)

lemma ex_select2: "select_optimal_k (Some [(2, ex_bundle2)]) (99/100) (19/20) = Inr 2"
  by (simp add: select_optimal_k_def ex_overall_df2 pass_rows_def Let_def)

lemma ex_select3: "select_optimal_k (Some [(3, ex_bundle3)]) (99/100) (19/20) = Inr 3"
  by (simp add: select_optimal_k_def ex_overall_df3 pass_rows_def Let_def)

lemma ex_select3_fine: "select_optimal_k (Some [(3, ex_bundle3_fine)]) (99/100) (19/20) = Inr 3"
  by (simp add: select_optimal_k_def ex_overall_df3_fine pass_rows_def Let_def)

lemma ex_select4_sparse: "select_optimal_k (Some [(4, ex_bundle4_sparse)]) (99/100) (19/20) = Inr 4"
  by (simp add: select_optimal_k_def ex_overall_df4_sparse pass_rows_def Let_def)

lemma judge_loop_append:
  "judge_loop tr pc cc (xs @ ys) st = err_bind (judge_loop tr pc cc xs st) (judge_loop tr pc cc ys)"
proof (induction xs arbitrary: st)
  case Nil
  show ?case by (simp add: err_bind_def)
next
  case (Cons r xs)
  obtain best mx out where st: "st = (best, mx, out)" by (cases st)
  show ?case
    by (cases "resolution_k tr pc cc r") (simp_all add: st err_bind_def Cons.IH)
qed

lemma judge_loop_null:
  assumes "tr r = Some None"
  shows "judge_loop tr pc cc (r # post) st = Inl AttributeError"
proof -
  obtain best mx out where st: "st = (best, mx, out)" by (cases st)
  show ?thesis using assms
    by (simp add: st resolution_k_def select_optimal_k_def err_bind_def)
qed

lemma judge_loop_result:
  assumes "judge_loop tr pc cc rs (best, mx, out) = Inr (best', mx', out')"
  shows "(best' = best \<and> mx' = mx
            \<and> list_all (\<lambda>r'. \<exists>m'. resolution_k tr pc cc r' = Inr m' \<and> m' \<le> mx) rs)
       \<or> (\<exists>pre r post. rs = pre @ r # post \<and> best' = Some r \<and> mx < mx'
            \<and> resolution_k tr pc cc r = Inr mx'
            \<and> list_all (\<lambda>r'. \<exists>m'. resolution_k tr pc cc r' = Inr m' \<and> m' < mx') pre
            \<and> list_all (\<lambda>r'. \<exists>m'. resolution_k tr pc cc r' = Inr m' \<and> m' \<le> mx') post)"
  using assms
proof (induction rs arbitrary: best mx out)
  case Nil
  then show ?case by simp
next
  case (Cons r rs)
  from Cons.prems obtain m where m: "resolution_k tr pc cc r = Inr m"
    by (cases "resolution_k tr pc cc r") (simp_all add: err_bind_def)
  show ?case
  proof (cases "m > mx")
    case True
    with Cons.prems m have rec: "judge_loop tr pc cc rs (Some r, m, out @ [Selected r m]) = Inr (best', mx', out')"
      by (simp add: err_bind_def)
    from Cons.IH[OF rec] show ?thesis
    proof (elim disjE conjE exE)
      assume "best' = Some r" "mx' = m"
        "list_all (\<lambda>r'. \<exists>m'. resolution_k tr pc cc r' = Inr m' \<and> m' \<le> m) rs"
      then have "r # rs = [] @ r # rs \<and> best' = Some r \<and> mx < mx'
            \<and> resolution_k tr pc cc r = Inr mx'
            \<and> list_all (\<lambda>r'. \<exists>m'. resolution_k tr pc cc r' = Inr m' \<and> m' < mx') []
            \<and> list_all (\<lambda>r'. \<exists>m'. resolution_k tr pc cc r' = Inr m' \<and> m' \<le> mx') rs"
        using True m by simp
      then show ?thesis by blast
    next
      fix pre r2 post
      assume a: "rs = pre @ r2 # post" "best' = Some r2" "m < mx'"
        "resolution_k tr pc cc r2 = Inr mx'"
        "list_all (\<lambda>r'. \<exists>m'. resolution_k tr pc cc r' = Inr m' \<and> m' < mx') pre"
        "list_all (\<lambda>r'. \<exists>m'. resolution_k tr pc cc r' = Inr m' \<and> m' \<le> mx') post"
      then have "r # rs = (r # pre) @ r2 # post \<and> best' = Some r2 \<and> mx < mx'
            \<and> resolution_k tr pc cc r2 = Inr mx'
            \<and> list_all (\<lambda>r'. \<exists>m'. resolution_k tr pc cc r' = Inr m' \<and> m' < mx') (r # pre)
            \<and> list_all (\<lambda>r'. \<exists>m'. resolution_k tr pc cc r' = Inr m' \<and> m' \<le> mx') post"
        using True m by simp
      then show ?thesis by blast
    qed
  next
    case False
    with Cons.prems m have rec: "judge_loop tr pc cc rs (best, mx, out @ [Selected r m]) = Inr (best', mx', out')"
      by (simp add: err_bind_def)
    from Cons.IH[OF rec] show ?thesis
    proof (elim disjE conjE exE)
      assume "best' = best" "mx' = mx"
        "list_all (\<lambda>r'. \<exists>m'. resolution_k tr pc cc r' = Inr m' \<and> m' \<le> mx) rs"
      then show ?thesis using False m by simp
    next
      fix pre r2 post
      assume a: "rs = pre @ r2 # post" "best' = Some r2" "mx < mx'"
        "resolution_k tr pc cc r2 = Inr mx'"
        "list_all (\<lambda>r'. \<exists>m'. resolution_k tr pc cc r' = Inr m' \<and> m' < mx') pre"
        "list_all (\<lambda>r'. \<exists>m'. resolution_k tr pc cc r' = Inr m' \<and> m' \<le> mx') post"
      then have "r # rs = (r # pre) @ r2 # post \<and> best' = Some r2 \<and> mx < mx'
            \<and> resolution_k tr pc cc r2 = Inr mx'
            \<and> list_all (\<lambda>r'. \<exists>m'. resolution_k tr pc cc r' = Inr m' \<and> m' < mx') (r # pre)
            \<and> list_all (\<lambda>r'. \<exists>m'. resolution_k tr pc cc r' = Inr m' \<and> m' \<le> mx') post"
        using False m by simp
      then show ?thesis by blast
    qed
  qed
qed

lemma fold_max_Max: "fold max ys (0::nat) = Max (insert 0 (set ys))"
  using Max.set_eq_fold[of 0 ys] by simp
















lemma zip_map_same: "zip (map f xs) (map g xs) = map (\<lambda>x. (f x, g x)) xs"
  by (induction xs) simp_all

lemma match_count_card:
  "match_count (cell_row results cell) (all_modes results fc c) =
     card {j. j < length results \<and>
              snd (results ! j) ! cell = hd (modes (sub_column fc c (snd (results ! j))))}"
proof -
  have "zip (cell_row results cell) (all_modes results fc c)
          = map (\<lambda>r. (snd r ! cell, hd (modes (sub_column fc c (snd r))))) results"
    by (simp add: cell_row_def all_modes_def zip_map_same case_prod_beta)
  then have "match_count (cell_row results cell) (all_modes results fc c)
          = length (filter (\<lambda>r. snd r ! cell = hd (modes (sub_column fc c (snd r)))) results)"
    by (simp add: match_count_def filter_map o_def)
  then show ?thesis by (simp add: length_filter_conv_card)
qed

lemma match_count_le: "match_count (cell_row results cell) (all_modes results fc c) \<le> length results"
proof -
  have "length (filter (\<lambda>(a, b). a = b) (zip (cell_row results cell) (all_modes results fc c)))
          \<le> length (zip (cell_row results cell) (all_modes results fc c))"
    by (rule length_filter_le)
  then show ?thesis by (simp add: match_count_def cell_row_def all_modes_def)
qed

lemma map_of_graph:
  assumes "\<And>a b. (a, b) \<in> set L \<Longrightarrow> b = g a" "x \<in> fst ` set L"
  shows "map_of L x = Some (g x)"
proof -
  from assms(2) obtain b where "map_of L x = Some b"
    by (cases "map_of L x") (auto simp: map_of_eq_None_iff)
  moreover then have "(x, b) \<in> set L" by (rule map_of_SomeD)
  ultimately show ?thesis using assms(1) by auto
qed

lemma cell_ambiguity_records_lookup:
  assumes "cell < length fc"
  shows "map_of (cell_ambiguity_records results fc) cell = Some (cell_ambiguity results fc cell)"
proof (rule map_of_graph)
  fix a b assume "(a, b) \<in> set (cell_ambiguity_records results fc)"
  then show "b = cell_ambiguity results fc a" by (auto simp: cell_ambiguity_records_def)
next
  have "fc ! cell \<in> set (groups fc)" using assms by (simp add: groups_def)
  then have "(cell, cell_ambiguity results fc cell) \<in> set (cell_ambiguity_records results fc)"
    using assms by (auto simp: cell_ambiguity_records_def)
  then show "cell \<in> fst ` set (cell_ambiguity_records results fc)" by force
qed

lemma chunk_simplify:
  assumes "length rs = n"
  shows "take (min (i + step) n - i) (drop i rs) = take step (drop i rs)"
proof (cases "i + step \<le> n")
  case True
  then show ?thesis by simp
next
  case False
  then have "length (drop i rs) \<le> min (i + step) n - i" "length (drop i rs) \<le> step"
    using assms by auto
  then show ?thesis by simp
qed

lemma concat_chunks_prefix:
  "concat (map (\<lambda>j. take step (drop (j * step) rs)) [0..<m]) = take (m * step) rs"
proof (induction m)
  case 0
  show ?case by simp
next
  case (Suc m)
  have "take (m * step) rs @ take step (drop (m * step) rs) = take (m * step + step) rs"
    by (simp add: take_add)
  with Suc show ?case by (simp add: add.commute)
qed

lemma ceil_div_covers:
  assumes "0 < step"
  shows "n \<le> ((n + step - 1) div step) * (step::nat)"
proof -
  have "n + step - 1 < ((n + step - 1) div step) * step + step"
    using assms dividend_less_div_times[of step "n + step - 1"] by (simp add: mult.commute)
  then show ?thesis by linarith
qed

lemma concat_random_state_chunks:
  assumes "length rs = n" "0 < step"
  shows "concat (random_state_chunks n step rs) = rs"
proof -
  have "random_state_chunks n step rs
          = map (\<lambda>j. take step (drop (j * step) rs)) [0..<(n + step - 1) div step]"
    by (simp add: random_state_chunks_def range0_def chunk_simplify[OF assms(1)] o_def)
  then have "concat (random_state_chunks n step rs) = take (((n + step - 1) div step) * step) rs"
    by (simp only: concat_chunks_prefix)
  then show ?thesis using ceil_div_covers[OF assms(2), of n] assms(1) by simp
qed

lemma single_leiden_ok:
  assumes "list_all (\<lambda>s. f s = Inr (part s)) chunk"
  shows "single_leiden f chunk = Inr (map (\<lambda>s. (s, part s)) chunk)"
  using assms by (induction chunk) (simp_all add: err_bind_def)

lemma collect_ok:
  assumes "list_all (\<lambda>i. i < length ds) order"
  shows "collect (map Inr ds) order = Inr (map (\<lambda>i. ds ! i) order)"
  using assms by (induction order) (simp_all add: err_bind_def)

lemma set_chunks_subset:
  assumes "length rs = n" "0 < step" "c \<in> set (random_state_chunks n step rs)"
  shows "set c \<subseteq> set rs"
proof -
  from assms(3) have "set c \<subseteq> set (concat (random_state_chunks n step rs))" by auto
  then show ?thesis by (simp add: concat_random_state_chunks[OF assms(1,2)])
qed

lemma futures_ok:
  assumes "length rs = n" "0 < step" "list_all (\<lambda>s. f s = Inr (part s)) rs"
  shows "map (single_leiden f) (random_state_chunks n step rs)
           = map Inr (map (map (\<lambda>s. (s, part s))) (random_state_chunks n step rs))"
proof -
  have "single_leiden f c = Inr (map (\<lambda>s. (s, part s)) c)"
    if "c \<in> set (random_state_chunks n step rs)" for c
  proof (rule single_leiden_ok)
    show "list_all (\<lambda>s. f s = Inr (part s)) c"
      using set_chunks_subset[OF assms(1,2) that] assms(3) by (auto simp: list_all_iff)
  qed
  then show ?thesis by simp
qed

lemma chunks_nonempty:
  assumes "0 < n" "0 < step"
  shows "random_state_chunks n step rs \<noteq> []"
proof -
  have "0 < (n + step - 1) div step"
    using assms by (simp add: div_greater_zero_iff)
  then show ?thesis by (simp add: random_state_chunks_def range0_def)
qed

lemma perm_index_sum:
  assumes "mset order = mset [0..<length (xs :: 'a list list)]"
  shows "mset (concat (map (\<lambda>i. xs ! i) order)) = mset (concat xs)"
proof -
  have "mset (concat (map (\<lambda>i. xs ! i) order)) = sum_mset (image_mset (\<lambda>i. mset (xs ! i)) (mset order))"
    by (simp add: mset_concat o_def flip: sum_mset_sum_list)
  also have "\<dots> = sum_mset (image_mset (\<lambda>i. mset (xs ! i)) (mset [0..<length xs]))"
    by (simp only: assms)
  also have "\<dots> = mset (concat (map (\<lambda>i. xs ! i) [0..<length xs]))"
    by (simp add: mset_concat o_def flip: sum_mset_sum_list)
  also have "map (\<lambda>i. xs ! i) [0..<length xs] = xs" by (rule map_nth)
  finally show ?thesis .
qed

lemma multi_leiden_result:
  assumes g: "ad_neighbors adata = Some g"
      and ok: "sample_ok choice seed_of_seeds n"
      and n: "0 < n" and cpu: "0 < cpu"
      and fp: "list_all (\<lambda>s. find_partition g resolution s = Inr (part s)) (choice seed_of_seeds n)"
      and perm: "mset completion =
                   mset [0..<length (random_state_chunks n (max (n div cpu) 5) (choice seed_of_seeds n))]"
  shows "multi_leiden_clustering choice find_partition completion adata n seed_of_seeds resolution cpu
           = Inr (concat (map (\<lambda>i. map (map (\<lambda>s. (s, part s)))
                      (random_state_chunks n (max (n div cpu) 5) (choice seed_of_seeds n)) ! i) completion))"
    and "mset (concat (map (\<lambda>i. map (map (\<lambda>s. (s, part s)))
                      (random_state_chunks n (max (n div cpu) 5) (choice seed_of_seeds n)) ! i) completion))
           = mset (map (\<lambda>s. (s, part s)) (choice seed_of_seeds n))"
proof -
  let ?rs = "choice seed_of_seeds n"
  let ?step = "max (n div cpu) 5"
  let ?chunks = "random_state_chunks n ?step ?rs"
  let ?ds = "map (map (\<lambda>s. (s, part s))) ?chunks"
  have len: "length ?rs = n" and dist: "distinct ?rs" and bnd: "set ?rs \<subseteq> {..<99999}"
    using ok by (auto simp: sample_ok_def list_all_iff)
  have "card (set ?rs) \<le> card {..<(99999::nat)}" using bnd by (intro card_mono) auto
  then have n_le: "\<not> n > 99999" using len dist by (simp add: distinct_card)
  have step: "0 < ?step" by simp
  have fut: "map (single_leiden (find_partition g resolution)) ?chunks = map Inr ?ds"
    by (rule futures_ok[OF len step fp])
  have idx: "list_all (\<lambda>i. i < length ?ds) completion"
  proof -
    have "set completion = set [0..<length ?chunks]" using perm by (rule mset_eq_setD)
    then show ?thesis by (auto simp: list_all_iff)
  qed
  have col: "collect (map Inr ?ds) completion = Inr (map (\<lambda>i. ?ds ! i) completion)"
    by (rule collect_ok[OF idx])
  have ne: "map (\<lambda>i. ?ds ! i) completion \<noteq> []"
  proof -
    have "length completion = length [0..<length ?chunks]" using perm by (rule mset_eq_length)
    then show ?thesis using chunks_nonempty[OF n step, of ?rs] by auto
  qed
  show "multi_leiden_clustering choice find_partition completion adata n seed_of_seeds resolution cpu
           = Inr (concat (map (\<lambda>i. ?ds ! i) completion))"
    using g n_le cpu ne
    by (simp add: multi_leiden_clustering_def Let_def fut col err_bind_def del: map_map)
  have "mset (concat (map (\<lambda>i. ?ds ! i) completion)) = mset (concat ?ds)"
    using perm by (intro perm_index_sum) simp
  also have "concat ?ds = map (\<lambda>s. (s, part s)) (concat ?chunks)"
    by (simp add: map_concat)
  also have "concat ?chunks = ?rs" by (rule concat_random_state_chunks[OF len step])
  finally show "mset (concat (map (\<lambda>i. ?ds ! i) completion)) = mset (map (\<lambda>s. (s, part s)) ?rs)" .
qed

lemma ex_chunks_10_5:
  "random_state_chunks 10 5 (ex_choice 0 10) = [[0, 1, 2, 3, 4], [5, 6, 7, 8, 9]]"
  by (simp add: random_state_chunks_def range0_def ex_choice_def upt_rec)

lemma ex_chunks_10_10:
  "random_state_chunks 10 10 (ex_choice 0 10) = [[0, 1, 2, 3, 4, 5, 6, 7, 8, 9]]"
  by (simp add: random_state_chunks_def range0_def ex_choice_def upt_rec)

lemma ex_chunks_300:
  "random_state_chunks 300 (max (300 div 1) 5) (ex_choice 0 300) = [ex_choice 0 300]"
  by (simp add: random_state_chunks_def range0_def ex_choice_def)

lemma ex_sample_ok: "n \<le> 99999 \<Longrightarrow> sample_ok ex_choice 0 n"
  by (auto simp: sample_ok_def ex_choice_def list_all_iff)







lemma remdups_constant: "xs \<noteq> [] \<Longrightarrow> set xs \<subseteq> {c} \<Longrightarrow> remdups xs = [c]"
proof (induction xs)
  case Nil
  then show ?case by simp
next
  case (Cons x xs)
  then have x: "x = c" and sub: "set xs \<subseteq> {c}" by auto
  show ?case
  proof (cases "xs = []")
    case True
    then show ?thesis using x by simp
  next
    case False
    then have "remdups xs = [c]" using Cons.IH sub by blast
    moreover have "c \<in> set xs" using False sub by (cases xs) auto
    ultimately show ?thesis using x by simp
  qed
qed

lemma modes_constant:
  assumes "xs \<noteq> []" "set xs = {c}"
  shows "modes xs = [c]"
proof -
  have rd: "remdups xs = [c]" using assms by (intro remdups_constant) auto
  have "fold max (map (count_list xs) xs) 0 = Max (insert 0 (count_list xs ` set xs))"
    by (simp add: fold_max_Max)
  also have "\<dots> = count_list xs c" by (simp add: assms(2))
  finally show ?thesis by (simp add: modes_def rd)
qed

lemma ex_resolution_ensemble:
  "resolution_ensemble ex_ext ex_fresh_adata 1 lr 1
     = Inr (map (\<lambda>s. (s, [0, 0, 1, 1])) (ex_choice 0 300))"
proof -
  have h1: "ad_neighbors ex_fresh_adata = Some ()" by (simp add: ex_fresh_adata_def)
  have h2: "sample_ok ex_choice 0 300" by (rule ex_sample_ok) simp
  have h3: "(0::nat) < 300" and h4: "(0::nat) < 1" by simp_all
  have h5: "list_all (\<lambda>s. ex_find_partition () 1 s = Inr [0, 0, 1, 1]) (ex_choice 0 300)"
    by (simp add: ex_find_partition_def list_all_iff)
  have h6: "mset [0] = mset [0..<length (random_state_chunks 300 (max (300 div 1) 5) (ex_choice 0 300))]"
    by (simp only: ex_chunks_300) simp
  have "multi_leiden_clustering ex_choice ex_find_partition [0] ex_fresh_adata 300 0 1 1
          = Inr (concat (map (\<lambda>i. map (map (\<lambda>s. (s, [0, 0, 1, 1])))
                   (random_state_chunks 300 (max (300 div 1) 5) (ex_choice 0 300)) ! i) [0]))"
    by (rule multi_leiden_result(1)[of ex_fresh_adata "()" ex_choice 0 300 1 ex_find_partition 1
               "\<lambda>s. [0, 0, 1, 1]" "[0]", OF h1 h2 h3 h4 h5 h6])
  then have "multi_leiden_clustering ex_choice ex_find_partition [0] ex_fresh_adata 300 0 1 1
          = Inr (map (\<lambda>s. (s, [0, 0, 1, 1])) (ex_choice 0 300))"
    by (simp only: ex_chunks_300) simp
  then show ?thesis by (simp add: resolution_ensemble_def ex_ext_def)
qed

lemma ex_mode_k:
  "mode_k_of (map (\<lambda>s. (s, [0, 0, 1, 1])) (ex_choice 0 300)) = Inr 2"
proof -
  have eq: "map (\<lambda>(seed, col). unique_size col) (map (\<lambda>s. (s, [0, 0, 1, 1::nat])) (ex_choice 0 300))
          = map (\<lambda>s. 2) (ex_choice 0 300)"
    by (simp add: unique_size_def)
  have m: "modes (map (\<lambda>s. 2) (ex_choice 0 300)) = [2]"
    by (rule modes_constant) (simp_all add: ex_choice_def image_constant_conv)
  have "mode_k_of (map (\<lambda>s. (s, [0, 0, 1, 1])) (ex_choice 0 300)) = Inr (int 2)"
    by (simp only: mode_k_of_def eq m list.case)
  then show ?thesis by simp
qed















lemma ex_empty_range_sweep:
  "leiden_kmode_clustering ex_ext ex_fresh_adata [1] Auto 1 300
       = Inr (ex_fresh_adata\<lparr>ad_leiden_kmode_results := Some [1 \<mapsto> None],
                ad_leiden_kmode_parameter :=
                  Some \<lparr>p_resolutions = [1], p_kmode_ks = Auto,
                        p_hard_k_min = 5, p_hard_k_max = int (ad_n_cells ex_fresh_adata div 50),
                        p_leiden_repeats = 300\<rparr>\<rparr>,
              [RunningLeiden 300 1, TooExtreme 1 2, SavedResults])"
proof -
  have e: "auto_ks_top 2 5 (int (ad_n_cells ex_fresh_adata div 50)) = []"
    by (simp add: auto_ks_top_def py_range_def ex_fresh_adata_def)
  have r: "sweep_resolution ex_ext ex_fresh_adata Auto 1 300 5
             (int (ad_n_cells ex_fresh_adata div 50)) 1
           = Inr (None, [RunningLeiden 300 1, TooExtreme 1 2])"
    unfolding sweep_resolution_def ex_resolution_ensemble err_bind_Inr ex_mode_k
    by (simp add: e)
  show ?thesis
    using r by (simp add: leiden_kmode_clustering_def Let_def err_bind_def)
qed

subsection \<open>The k selector\<close>

text \<open>
  Claim C1, as amended. For one resolution with at least one k passing both strict
  cutoffs: the rows kept are the passing rows, in iteration order, up to and including
  the first passing row whose cluster count equals the largest cluster count over all
  candidates (all passing rows when none reaches it), and \<^verbatim>\<open>_select_optimal_k\<close> returns
  the largest k among the rows kept. When every candidate's cluster count equals its k,
  this is the passing k with the first-seen maximum cluster count.
\<close>

theorem select_optimal_k_largest_kept_k:
  assumes "pass_rows pc cc (overall_df kr) \<noteq> []"
  shows "select_optimal_k (Some kr) pc cc =
           Inr (Max (set (map row_k
             (let P = pass_rows pc cc (overall_df kr);
                  m = Max (set (map row_n_cluster (overall_df kr)))
              in takeWhile (\<lambda>r. row_n_cluster r \<noteq> m) P
                   @ take 1 (dropWhile (\<lambda>r. row_n_cluster r \<noteq> m) P)))))
       \<and> (list_all (\<lambda>(k, rd). int (unique_size (rd_cluster rd)) = k) kr \<longrightarrow>
            (\<exists>k. spec_first_seen_max_k kr pc cc = Some k \<and> select_optimal_k (Some kr) pc cc = Inr k))"
proof -
  let ?df = "overall_df kr"
  let ?P = "pass_rows pc cc ?df"
  let ?m = "Max (set (map row_n_cluster ?df))"
  let ?kept = "takeWhile (\<lambda>r. row_n_cluster r \<noteq> ?m) ?P @ take 1 (dropWhile (\<lambda>r. row_n_cluster r \<noteq> ?m) ?P)"
  have sel: "select_optimal_k (Some kr) pc cc = Inr (Max (set (map row_k ?kept)))"
    using select_optimal_k_value[OF assms] by (simp add: scan_rows_split)
  have kept_ne: "?kept \<noteq> []" using assms scan_rows_nonempty[of ?P "Some ?m"] by (simp add: scan_rows_split)
  have kept_sub: "set ?kept \<subseteq> set ?P" using scan_rows_subset[of "Some ?m" ?P] by (simp add: scan_rows_split)
  have second: "\<exists>k. spec_first_seen_max_k kr pc cc = Some k \<and> select_optimal_k (Some kr) pc cc = Inr k"
    if H: "list_all (\<lambda>(k, rd). int (unique_size (rd_cluster rd)) = k) kr"
  proof -
    have Hdf: "\<And>r. r \<in> set ?df \<Longrightarrow> row_k r = int (row_n_cluster r)"
      using H by (auto simp: overall_df_def list_all_iff)
    have HP: "\<And>r. r \<in> set ?P \<Longrightarrow> row_k r = int (row_n_cluster r)"
      using Hdf pass_rows_subset by blast
    have km: "Max (row_n_cluster ` set ?kept) = Max (row_n_cluster ` set ?P)"
      using kept_max[of ?P "set ?df" ?m row_n_cluster] assms pass_rows_subset[of pc cc ?df] by simp
    have "row_k ` set ?kept = (int \<circ> row_n_cluster) ` set ?kept"
      using HP kept_sub by (intro image_cong) auto
    then have "Max (row_k ` set ?kept) = Max (int ` (row_n_cluster ` set ?kept))"
      by (simp add: image_comp)
    also have "\<dots> = int (Max (row_n_cluster ` set ?kept))"
      using kept_ne by (intro mono_Max_commute[symmetric]) (auto simp: mono_def)
    finally have K: "Max (row_k ` set ?kept) = int (Max (row_n_cluster ` set ?P))"
      using km by simp
    obtain r0 where r0: "find (\<lambda>r. row_n_cluster r = Max (row_n_cluster ` set ?P)) ?P = Some r0"
        "r0 \<in> set ?P" "row_n_cluster r0 = Max (row_n_cluster ` set ?P)"
      using find_max_attained[OF assms, of row_n_cluster] by blast
    have spec: "spec_first_seen_max_k kr pc cc = Some (row_k r0)"
      using assms r0 by (simp add: spec_first_seen_max_k_def Let_def series_max_Max)
    have K': "Max (set (map row_k ?kept)) = int (Max (row_n_cluster ` set ?P))"
      using K by (simp only: set_map)
    from HP[OF r0(2)] r0(3) have "row_k r0 = int (Max (row_n_cluster ` set ?P))"
      by (simp only:)
    with K' have "Max (set (map row_k ?kept)) = row_k r0" by (simp only:)
    with sel have "select_optimal_k (Some kr) pc cc = Inr (row_k r0)" by (simp only:)
    with spec show ?thesis by blast
  qed
  show ?thesis using sel second by (simp only: Let_def) blast
qed


theorem select_optimal_k_largest_kept_k_witness:
  "pass_rows (99/100) (95/100) (overall_df [(2, ex_bundle2), (4, ex_bundle4)]) \<noteq> []
   \<and> list_all (\<lambda>(k, rd). int (unique_size (rd_cluster rd)) = k) [(2, ex_bundle2), (4, ex_bundle4)]
   \<and> select_optimal_k (Some [(2, ex_bundle2), (4, ex_bundle4)]) (99/100) (95/100) = Inr 2
   \<and> spec_first_seen_max_k [(2, ex_bundle2), (4, ex_bundle4)] (99/100) (95/100) = Some 2"
proof -
  let ?kr = "[(2, ex_bundle2), (4, ex_bundle4)]"
  have h1: "pass_rows (99/100) (95/100) (overall_df ?kr) \<noteq> []"
    by (simp add: ex_overall_df24 pass_rows_def)
  have h2: "list_all (\<lambda>(k, rd). int (unique_size (rd_cluster rd)) = k) ?kr"
    by (simp add: ex_bundle2_def ex_bundle4_def kmode_bundle_def Let_def unique_size_def)
  have v: "select_optimal_k (Some ?kr) (99/100) (95/100) = Inr 2"
    using select_optimal_k_largest_kept_k[OF h1]
    by (simp add: ex_overall_df24 pass_rows_def Let_def)
  from select_optimal_k_largest_kept_k[OF h1] h2
  have "\<exists>k. spec_first_seen_max_k ?kr (99/100) (95/100) = Some k
            \<and> select_optimal_k (Some ?kr) (99/100) (95/100) = Inr k"
    by blast
  with v have "spec_first_seen_max_k ?kr (99/100) (95/100) = Some 2" by auto
  with h1 h2 v show ?thesis by blast
qed

text \<open>
  Claim C1 as stated fails: k = 2 and k = 3 both pass with two clusters each and k = 4
  (four clusters) fails completeness; the first-seen maximum among the passing rows is
  k = 2, the function returns 3.
\<close>

theorem select_optimal_k_not_first_seen_max:
  "select_optimal_k (Some ex_kmode_results) (99/100) (95/100) = Inr 3
   \<and> spec_first_seen_max_k ex_kmode_results (99/100) (95/100) = Some 2"
  by (simp add: select_optimal_k_def spec_first_seen_max_k_def ex_overall_df pass_rows_def Let_def)

text \<open>
  Claim C2 at a failing input: one resolution whose only k fails the completeness cutoff.
  \<^verbatim>\<open>_select_optimal_k\<close> raises KeyError instead of returning \<^verbatim>\<open>None\<close>, and
  \<^verbatim>\<open>judge_leiden_kmode_results\<close> raises with it instead of reporting the failure.
\<close>

theorem no_passing_k_raises:
  "select_optimal_k (Some [(4, ex_bundle4)]) (99/100) (95/100) = Inl (KeyError (Name ''k''))
   \<and> judge_leiden_kmode_results
         (ex_adata [1 \<mapsto> Some [(4, ex_bundle4)]] (ex_parameters [1] [4]))
         (99/100) (95/100) (1/100) (5/1000) = Inl (KeyError (Name ''k''))"
proof -
  have s: "select_optimal_k (Some [(4, ex_bundle4)]) (99/100) (95/100) = Inl (KeyError (Name ''k''))"
    by (simp add: select_optimal_k_def ex_overall_df4 pass_rows_def Let_def)
  then show ?thesis
    by (simp add: judge_leiden_kmode_results_def judge_select_def ex_adata_def ex_parameters_def
          resolution_k_def err_bind_def)
qed

subsection \<open>The cell filter\<close>

text \<open>
  Claim C4 at a failing input: on the bundle of the two-community example with the
  default cutoffs, \<^verbatim>\<open>_filter_cell_and_cluster\<close> raises KeyError at line 211, where it reads
  the column \<open>cluster\<close> of a frame whose columns are \<open>LK_cell_ambiguity\<close> and
  \<open>LK_cluster\<close>; no annotation is produced.
\<close>

theorem filter_cell_and_cluster_key_error:
  "filter_cell_and_cluster ex_bundle2 (1/100) (5/1000) = Inl (KeyError (Name ''cluster''))"
  by (rule filter_cell_and_cluster_raises)

subsection \<open>Selection across resolutions\<close>

text \<open>
  Claim C10. When the stored results map a resolution of the stored parameter list to
  \<^verbatim>\<open>None\<close>, \<^verbatim>\<open>judge_leiden_kmode_results\<close> does not skip it: the call ends with the
  exception of an earlier resolution if the scan of the resolutions before it raised,
  and otherwise with the AttributeError raised by \<^verbatim>\<open>None.items()\<close> at that resolution.
\<close>

theorem judge_raises_at_null_resolution:
  assumes "ad_leiden_kmode_results adata = Some total_results"
      and "ad_leiden_kmode_parameter adata = Some parameters"
      and "p_resolutions parameters = pre @ resolution # post"
      and "total_results resolution = Some None"
  shows "judge_leiden_kmode_results adata pc cc ac cp =
           (case judge_loop total_results pc cc pre (None, - 1, []) of
              Inl e \<Rightarrow> Inl e
            | Inr st \<Rightarrow> Inl AttributeError)"
proof -
  have "judge_loop total_results pc cc (pre @ resolution # post) (None, - 1, []) =
          (case judge_loop total_results pc cc pre (None, - 1, []) of
              Inl e \<Rightarrow> Inl e
            | Inr st \<Rightarrow> Inl AttributeError)"
    using judge_loop_null[of total_results resolution pc cc post, OF assms(4)]
    by (simp add: judge_loop_append err_bind_def split: sum.splits)
  then show ?thesis
    using assms(1-3)
    by (simp add: judge_leiden_kmode_results_def judge_select_def err_bind_def split: sum.splits)
qed

theorem judge_raises_at_null_resolution_witness:
  "ad_leiden_kmode_results
       (ex_adata [1 \<mapsto> Some [(2, ex_bundle2)], 2 \<mapsto> None] (ex_parameters [1, 2] [2]))
     = Some [1 \<mapsto> Some [(2, ex_bundle2)], 2 \<mapsto> None]
   \<and> ad_leiden_kmode_parameter
       (ex_adata [1 \<mapsto> Some [(2, ex_bundle2)], 2 \<mapsto> None] (ex_parameters [1, 2] [2]))
     = Some (ex_parameters [1, 2] [2])
   \<and> p_resolutions (ex_parameters [1, 2] [2]) = [1] @ 2 # []
   \<and> ([1 \<mapsto> Some [(2, ex_bundle2)], 2 \<mapsto> None] :: total_results) 2 = Some None
   \<and> judge_leiden_kmode_results
         (ex_adata [1 \<mapsto> Some [(2, ex_bundle2)], 2 \<mapsto> None] (ex_parameters [1, 2] [2]))
         (99/100) (95/100) (1/100) (5/1000) = Inl AttributeError"
proof -
  let ?T = "[1 \<mapsto> Some [(2, ex_bundle2)], 2 \<mapsto> None] :: total_results"
  let ?P = "ex_parameters [1, 2] [2]"
  have h1: "ad_leiden_kmode_results (ex_adata ?T ?P) = Some ?T" by (simp add: ex_adata_def)
  have h2: "ad_leiden_kmode_parameter (ex_adata ?T ?P) = Some ?P" by (simp add: ex_adata_def)
  have h3: "p_resolutions ?P = [1] @ 2 # []" by (simp add: ex_parameters_def)
  have h4: "?T 2 = Some None" by simp
  have pre: "judge_loop ?T (99/100) (95/100) [1] (None, - 1, []) = Inr (Some 1, 2, [Selected 1 2])"
    by (simp add: resolution_k_def ex_select2 err_bind_def)
  have "judge_leiden_kmode_results (ex_adata ?T ?P) (99/100) (95/100) (1/100) (5/1000) =
          (case judge_loop ?T (99/100) (95/100) [1] (None, - 1, []) of
             Inl e \<Rightarrow> Inl e
           | Inr st \<Rightarrow> Inl AttributeError)"
    by (rule judge_raises_at_null_resolution[OF h1 h2 h3 h4])
  then have r: "judge_leiden_kmode_results (ex_adata ?T ?P) (99/100) (95/100) (1/100) (5/1000)
                  = Inl AttributeError"
    by (simp only: pre sum.case)
  show ?thesis
    using h1 h2 h3 h4 r by (intro conjI) assumption+
qed

text \<open>
  Claim C3, as amended. When \<^verbatim>\<open>judge_leiden_kmode_results\<close> settles on a resolution, it
  is the first resolution of the stored list whose selected k is the largest: the
  selected k of every earlier resolution is strictly smaller and that of every later one
  is not larger. The values compared are the selected k themselves, not the numbers of
  distinct clusters. The bundle stored for that resolution under that k is the one
  handed to \<^verbatim>\<open>_filter_cell_and_cluster\<close>.
\<close>

theorem judge_select_largest_k:
  assumes "ad_leiden_kmode_results adata = Some tr"
      and "ad_leiden_kmode_parameter adata = Some ps"
      and "judge_select adata pc cc = Inr (Some (r, m, b), out)"
  shows "\<exists>pre post kr. p_resolutions ps = pre @ r # post
           \<and> resolution_k tr pc cc r = Inr m
           \<and> list_all (\<lambda>r'. \<exists>m'. resolution_k tr pc cc r' = Inr m' \<and> m' < m) pre
           \<and> list_all (\<lambda>r'. \<exists>m'. resolution_k tr pc cc r' = Inr m' \<and> m' \<le> m) post
           \<and> tr r = Some (Some kr) \<and> map_of kr m = Some b
           \<and> judge_leiden_kmode_results adata pc cc ac cp =
               err_bind (filter_cell_and_cluster b ac cp) (attach_columns adata out)"
proof -
  from assms obtain best mx out' where
    loop: "judge_loop tr pc cc (p_resolutions ps) (None, - 1, []) = Inr (best, mx, out')"
    by (cases "judge_loop tr pc cc (p_resolutions ps) (None, - 1, [])")
       (auto simp: judge_select_def err_bind_def)
  with assms have best: "best = Some r" and bk: "best_k_result tr r mx = Inr b" and "mx = m" "out' = out"
    by (auto simp: judge_select_def err_bind_def split: option.splits sum.splits)
  from judge_loop_result[OF loop] best obtain pre post where
    pp: "p_resolutions ps = pre @ r # post" "resolution_k tr pc cc r = Inr mx"
        "list_all (\<lambda>r'. \<exists>m'. resolution_k tr pc cc r' = Inr m' \<and> m' < mx) pre"
        "list_all (\<lambda>r'. \<exists>m'. resolution_k tr pc cc r' = Inr m' \<and> m' \<le> mx) post"
    by auto
  from bk obtain kr where kr: "tr r = Some (Some kr)" "map_of kr mx = Some b"
    by (auto simp: best_k_result_def split: option.splits)
  have "judge_leiden_kmode_results adata pc cc ac cp =
               err_bind (filter_cell_and_cluster b ac cp) (attach_columns adata out)"
    using assms(3) by (simp add: judge_leiden_kmode_results_def err_bind_def)
  with pp kr \<open>mx = m\<close> show ?thesis by blast
qed

theorem judge_select_largest_k_witness:
  "ad_leiden_kmode_results
       (ex_adata [1 \<mapsto> Some [(2, ex_bundle2)], 1/2 \<mapsto> Some [(3, ex_bundle3)]]
          (ex_parameters [1, 1/2] [2, 3]))
     = Some [1 \<mapsto> Some [(2, ex_bundle2)], 1/2 \<mapsto> Some [(3, ex_bundle3)]]
   \<and> ad_leiden_kmode_parameter
       (ex_adata [1 \<mapsto> Some [(2, ex_bundle2)], 1/2 \<mapsto> Some [(3, ex_bundle3)]]
          (ex_parameters [1, 1/2] [2, 3]))
     = Some (ex_parameters [1, 1/2] [2, 3])
   \<and> judge_select
       (ex_adata [1 \<mapsto> Some [(2, ex_bundle2)], 1/2 \<mapsto> Some [(3, ex_bundle3)]]
          (ex_parameters [1, 1/2] [2, 3])) (99/100) (95/100)
     = Inr (Some (1/2, 3, ex_bundle3), [Selected 1 2, Selected (1/2) 3])
   \<and> (\<exists>pre post kr. p_resolutions (ex_parameters [1, 1/2] [2, 3]) = pre @ (1/2) # post
         \<and> resolution_k [1 \<mapsto> Some [(2, ex_bundle2)], 1/2 \<mapsto> Some [(3, ex_bundle3)]]
               (99/100) (95/100) (1/2) = Inr 3
         \<and> list_all (\<lambda>r'. \<exists>m'. resolution_k
                  [1 \<mapsto> Some [(2, ex_bundle2)], 1/2 \<mapsto> Some [(3, ex_bundle3)]]
                  (99/100) (95/100) r' = Inr m' \<and> m' < 3) pre
         \<and> list_all (\<lambda>r'. \<exists>m'. resolution_k
                  [1 \<mapsto> Some [(2, ex_bundle2)], 1/2 \<mapsto> Some [(3, ex_bundle3)]]
                  (99/100) (95/100) r' = Inr m' \<and> m' \<le> 3) post
         \<and> ([1 \<mapsto> Some [(2, ex_bundle2)], 1/2 \<mapsto> Some [(3, ex_bundle3)]] :: total_results) (1/2)
             = Some (Some kr)
         \<and> map_of kr 3 = Some ex_bundle3
         \<and> judge_leiden_kmode_results
               (ex_adata [1 \<mapsto> Some [(2, ex_bundle2)], 1/2 \<mapsto> Some [(3, ex_bundle3)]]
                  (ex_parameters [1, 1/2] [2, 3])) (99/100) (95/100) (1/100) (5/1000) =
             err_bind (filter_cell_and_cluster ex_bundle3 (1/100) (5/1000))
               (attach_columns
                  (ex_adata [1 \<mapsto> Some [(2, ex_bundle2)], 1/2 \<mapsto> Some [(3, ex_bundle3)]]
                     (ex_parameters [1, 1/2] [2, 3]))
                  [Selected 1 2, Selected (1/2) 3]))"
proof -
  let ?T = "[1 \<mapsto> Some [(2, ex_bundle2)], 1/2 \<mapsto> Some [(3, ex_bundle3)]] :: total_results"
  let ?P = "ex_parameters [1, 1/2] [2, 3]"
  have h1: "ad_leiden_kmode_results (ex_adata ?T ?P) = Some ?T" by (simp add: ex_adata_def)
  have h2: "ad_leiden_kmode_parameter (ex_adata ?T ?P) = Some ?P" by (simp add: ex_adata_def)
  have h3: "judge_select (ex_adata ?T ?P) (99/100) (95/100)
              = Inr (Some (1/2, 3, ex_bundle3), [Selected 1 2, Selected (1/2) 3])"
    by (simp add: judge_select_def ex_adata_def ex_parameters_def resolution_k_def
          ex_select2 ex_select3 best_k_result_def err_bind_def)
  show ?thesis
    using h1 h2 h3 judge_select_largest_k[OF h1 h2 h3, of "1/100" "5/1000"]
    by (intro conjI) assumption+
qed

text \<open>
  Claim C3 as stated fails. Resolution 1/2 has k = 4 selected with two distinct
  clusters, resolution 1 has k = 3 selected with three: the function settles on
  resolution 1/2, the rule of the claim on resolution 1.
\<close>

theorem judge_select_not_most_clusters:
  "judge_select
       (ex_adata [1/2 \<mapsto> Some [(4, ex_bundle4_sparse)], 1 \<mapsto> Some [(3, ex_bundle3_fine)]]
          (ex_parameters [1/2, 1] [3, 4])) (99/100) (95/100)
     = Inr (Some (1/2, 4, ex_bundle4_sparse), [Selected (1/2) 4, Selected 1 3])
   \<and> unique_size (rd_cluster ex_bundle4_sparse) = 2
   \<and> resolution_k [1/2 \<mapsto> Some [(4, ex_bundle4_sparse)], 1 \<mapsto> Some [(3, ex_bundle3_fine)]]
         (99/100) (95/100) 1 = Inr 3
   \<and> unique_size (rd_cluster ex_bundle3_fine) = 3
   \<and> spec_best_resolution
         [1/2 \<mapsto> Some [(4, ex_bundle4_sparse)], 1 \<mapsto> Some [(3, ex_bundle3_fine)]]
         (99/100) (95/100) [1/2, 1] (None, 0) = (Some 1, 3)"
proof -
  have u: "unique_size (rd_cluster ex_bundle4_sparse) = 2" "unique_size (rd_cluster ex_bundle3_fine) = 3"
    by (simp_all add: ex_bundle4_sparse_def ex_bundle3_fine_def kmode_bundle_def Let_def unique_size_def)
  show ?thesis
    by (simp add: judge_select_def ex_adata_def ex_parameters_def resolution_k_def
          ex_select3_fine ex_select4_sparse best_k_result_def err_bind_def u)
qed

subsection \<open>Metrics of a result bundle\<close>


lemma round_even_nonneg: "0 \<le> y \<Longrightarrow> 0 \<le> round_even y"
  by (simp add: round_even_def Let_def)

lemma round_even_le: "y \<le> of_int n \<Longrightarrow> round_even y \<le> n"
proof -
  assume a: "y \<le> of_int n"
  then have f: "\<lfloor>y\<rfloor> \<le> n" by (simp add: floor_le_iff) 
  show ?thesis
  proof (cases "\<lfloor>y\<rfloor> = n")
    case True
    then have "y - of_int \<lfloor>y\<rfloor> \<le> 0" using a by simp
    then show ?thesis using True by (simp add: round_even_def Let_def)
  next
    case False
    then have "\<lfloor>y\<rfloor> + 1 \<le> n" using f by simp
    then show ?thesis by (simp add: round_even_def Let_def)
  qed
qed

lemma fl_nonneg: "0 \<le> x \<Longrightarrow> 0 \<le> fl x"
  by (simp add: fl_def Let_def round_even_nonneg)

lemma binade_le_0: "x \<le> 1 \<Longrightarrow> binade x \<le> 0"
  by (cases "x = 1") (simp_all add: binade_def bitlen_nonneg bitlen_alt_def)

lemma fl_le_one:
  assumes "0 \<le> x" "x \<le> 1"
  shows "fl x \<le> 1"
proof (cases "x = 0")
  case True
  then show ?thesis by (simp add: fl_def)
next
  case False
  define e where "e = max (binade \<bar>x\<bar>) (- 1022)"
  have e0: "e \<le> 0" using binade_le_0[of "\<bar>x\<bar>"] assms by (simp add: e_def)
  define n :: int where "n = 2 ^ nat (52 - e)"
  have p: "(2::real) powi (52 - e) = of_int n" using e0 by (simp add: n_def power_int_def)
  have n0: "0 \<le> real_of_int n" by (simp add: n_def)
  have "x * 2 powi (52 - e) \<le> of_int n"
    unfolding p using mult_right_mono[OF assms(2) n0] by simp
  then have "round_even (x * 2 powi (52 - e)) \<le> n" by (rule round_even_le)
  then have "(of_int (round_even (x * 2 powi (52 - e))) :: real) \<le> 2 powi (52 - e)"
    unfolding p by (simp only: of_int_le_iff)
  then have "of_int (round_even (x * 2 powi (52 - e))) * 2 powi (e - 52)
               \<le> 2 powi (52 - e) * (2::real) powi (e - 52)"
    by (rule mult_right_mono) simp
  also have "\<dots> = 1" by (simp flip: power_int_add)
  finally show ?thesis using False by (simp add: fl_def Let_def e_def)
qed

lemma final_portion64_bounds:
  "0 \<le> final_portion64 fc c \<and> final_portion64 fc c \<le> 1"
proof -
  have "count_list fc c \<le> length fc" by (rule count_le_length)
  then have "real (count_list fc c) / real (length fc) \<le> 1"
    by (cases "fc = []") (simp_all add: field_simps)
  then show ?thesis
    unfolding final_portion64_def by (simp add: fl_nonneg fl_le_one)
qed

lemma weighted64_bounds:
  assumes "list_all (\<lambda>(c, p). 0 \<le> p \<and> p \<le> 1) records"
  shows "list_all (\<lambda>(c, w). 0 \<le> w \<and> w \<le> 1) (weighted64 fc records)"
proof -
  have "0 \<le> fl (p * final_portion64 fc c) \<and> fl (p * final_portion64 fc c) \<le> 1"
    if "0 \<le> p" "p \<le> 1" for p c
  proof -
    have "0 \<le> p * final_portion64 fc c" "p * final_portion64 fc c \<le> 1"
      using that final_portion64_bounds[of fc c] by (simp_all add: mult_le_one)
    then show ?thesis by (simp add: fl_nonneg fl_le_one)
  qed
  then show ?thesis using assms by (auto simp: weighted64_def list_all_iff)
qed

lemma foldl_fl_nonneg:
  "0 \<le> s \<Longrightarrow> (\<And>x. x \<in> set xs \<Longrightarrow> 0 \<le> x) \<Longrightarrow> 0 \<le> foldl (\<lambda>s x. fl (s + x)) s xs"
  by (induction xs arbitrary: s) (simp_all add: fl_nonneg)

lemma overall64_nonneg:
  assumes "list_all (\<lambda>(c, p). 0 \<le> p \<and> p \<le> 1) records" "length records < 8"
  shows "\<exists>s. overall64 fc records = Some s \<and> 0 \<le> s"
proof -
  have "\<And>x. x \<in> set (map snd (weighted64 fc records)) \<Longrightarrow> 0 \<le> x"
    using weighted64_bounds[OF assms(1), of fc] by (auto simp: list_all_iff)
  then have "0 \<le> foldl (\<lambda>s x. fl (s + x)) 0 (map snd (weighted64 fc records))"
    by (intro foldl_fl_nonneg) simp_all
  then show ?thesis using assms(2) by (simp add: overall64_def sum64_def weighted64_def)
qed
































text \<open>
  Claim C9. The ambiguity recorded for a cell is 1 minus the fraction of the run columns
  in which the cell's label equals the modal label of its own cluster in that column; it
  lies in [0, 1], and it is 0 for a cell that agrees with its cluster's mode in every
  column.
\<close>

theorem cell_ambiguity_is_one_minus_agreement:
  assumes "fit_predict results k = Inr final_cluster"
      and "rectangular results final_cluster"
      and "cell < length final_cluster"
  shows "\<exists>b a. kmode_on_multi_leiden fit_predict results k = Inr b
           \<and> map_of (rd_cell_ambiguity b) cell = Some a
           \<and> a = 1 - real (card {j. j < length results \<and>
                     snd (results ! j) ! cell =
                       hd (modes (sub_column final_cluster (final_cluster ! cell) (snd (results ! j))))})
                   / real (length results)
           \<and> 0 \<le> a \<and> a \<le> 1
           \<and> ((\<forall>j < length results.
                   snd (results ! j) ! cell =
                     hd (modes (sub_column final_cluster (final_cluster ! cell) (snd (results ! j)))))
                \<longrightarrow> a = 0)"
proof -
  let ?S = "{j. j < length results \<and>
                snd (results ! j) ! cell =
                  hd (modes (sub_column final_cluster (final_cluster ! cell) (snd (results ! j))))}"
  let ?a = "cell_ambiguity results final_cluster cell"
  have R: "0 < length results" using assms(2) by (simp add: rectangular_def)
  have b: "kmode_on_multi_leiden fit_predict results k = Inr (kmode_bundle results final_cluster k)"
    using assms(1) by (simp add: kmode_on_multi_leiden_def err_bind_def)
  have look: "map_of (rd_cell_ambiguity (kmode_bundle results final_cluster k)) cell = Some ?a"
    using cell_ambiguity_records_lookup[OF assms(3)] by (simp add: kmode_bundle_def Let_def)
  have eq: "?a = 1 - real (card ?S) / real (length results)"
    by (simp add: cell_ambiguity_def Let_def match_count_card)
  have le: "card ?S \<le> length results"
    using match_count_le[of results cell final_cluster "final_cluster ! cell"]
    by (simp add: match_count_card)
  have lo: "0 \<le> ?a" unfolding eq using le R by simp
  have hi: "?a \<le> 1" unfolding eq by simp
  have zero: "?a = 0"
    if "\<forall>j < length results.
          snd (results ! j) ! cell =
            hd (modes (sub_column final_cluster (final_cluster ! cell) (snd (results ! j))))"
  proof -
    from that have "?S = {..<length results}" by auto
    then have "card ?S = length results" by simp
    then show ?thesis unfolding eq using R by simp
  qed
  from b look eq lo hi zero show ?thesis by blast
qed

theorem cell_ambiguity_is_one_minus_agreement_witness:
  "(\<lambda>results k. Inr [0, 0, 1, 1]) ex_matrix (2::int) = (Inr [0, 0, 1, 1] :: error + nat list)
   \<and> rectangular ex_matrix [0, 0, 1, 1]
   \<and> (0::nat) < length [0, 0, 1, 1::nat]
   \<and> length ex_matrix = 1
   \<and> snd (ex_matrix ! 0) ! 0 =
         hd (modes (sub_column [0, 0, 1, 1] ([0, 0, 1, 1] ! 0) (snd (ex_matrix ! 0))))
   \<and> (\<exists>b. kmode_on_multi_leiden (\<lambda>results k. Inr [0, 0, 1, 1]) ex_matrix 2 = Inr b
          \<and> map_of (rd_cell_ambiguity b) 0 = Some 0)"
proof -
  have h1: "(\<lambda>results k. Inr [0, 0, 1, 1]) ex_matrix (2::int) = (Inr [0, 0, 1, 1] :: error + nat list)"
    by simp
  have h2: "rectangular ex_matrix [0, 0, 1, 1]"
    by (simp add: rectangular_def ex_matrix_def)
  have h3: "(0::nat) < length [0, 0, 1, 1::nat]" by simp
  have h4: "\<forall>j < length ex_matrix.
          snd (ex_matrix ! j) ! 0 =
            hd (modes (sub_column [0, 0, 1, 1] ([0, 0, 1, 1] ! 0) (snd (ex_matrix ! j))))"
    by (simp add: ex_matrix_def sub_column_def modes_def)
  from cell_ambiguity_is_one_minus_agreement
         [of "\<lambda>results k. Inr [0, 0, 1, 1]" ex_matrix 2 "[0, 0, 1, 1]" 0, OF h1 h2 h3]
  obtain b a where b: "kmode_on_multi_leiden (\<lambda>results k. Inr [0, 0, 1, 1]) ex_matrix 2 = Inr b"
    and a: "map_of (rd_cell_ambiguity b) 0 = Some a"
    and z: "(\<forall>j < length ex_matrix.
          snd (ex_matrix ! j) ! 0 =
            hd (modes (sub_column [0, 0, 1, 1] ([0, 0, 1, 1] ! 0) (snd (ex_matrix ! j)))))
          \<longrightarrow> a = 0"
    by (elim exE conjE)
  from z h4 have "a = 0" by (rule mp)
  with a have a0: "map_of (rd_cell_ambiguity b) 0 = Some 0" by (simp only:)
  from b a0
  have "\<exists>b. kmode_on_multi_leiden (\<lambda>results k. Inr [0, 0, 1, 1]) ex_matrix 2 = Inr b
          \<and> map_of (rd_cell_ambiguity b) 0 = Some 0"
    by (intro exI[of _ b] conjI)
  moreover have "length ex_matrix = 1" by (simp add: ex_matrix_def)
  moreover have "snd (ex_matrix ! 0) ! 0 =
         hd (modes (sub_column [0, 0, 1, 1] ([0, 0, 1, 1] ! 0) (snd (ex_matrix ! 0))))"
    by (simp add: ex_matrix_def sub_column_def modes_def)
  ultimately show ?thesis using h1 h2 h3 by (intro conjI) assumption+
qed

subsection \<open>The randomized partition ensemble\<close>

text \<open>
  Claim C6, as amended. For a fixed seed of seeds and repeat count the seeds drawn are
  the same in every invocation, and with a deterministic community detection that does
  not fail, two invocations with any concurrency degrees and any worker completion
  orders return matrices with the same columns: one column per drawn seed, the same
  labels under the same seed. The order of the columns follows the completion order of
  the worker chunks and is not part of what is guaranteed.
\<close>

theorem multi_leiden_same_columns:
  assumes g: "ad_neighbors adata = Some g"
      and ok: "sample_ok choice seed_of_seeds n"
      and n: "0 < n" and cpu1: "0 < cpu1" and cpu2: "0 < cpu2"
      and fp: "list_all (\<lambda>s. find_partition g resolution s = Inr (part s)) (choice seed_of_seeds n)"
      and perm1: "mset completion1 =
                   mset [0..<length (random_state_chunks n (max (n div cpu1) 5) (choice seed_of_seeds n))]"
      and perm2: "mset completion2 =
                   mset [0..<length (random_state_chunks n (max (n div cpu2) 5) (choice seed_of_seeds n))]"
  shows "\<exists>m1 m2.
           multi_leiden_clustering choice find_partition completion1 adata n seed_of_seeds resolution cpu1 = Inr m1
         \<and> multi_leiden_clustering choice find_partition completion2 adata n seed_of_seeds resolution cpu2 = Inr m2
         \<and> mset (map fst m1) = mset (choice seed_of_seeds n)
         \<and> mset (map fst m2) = mset (choice seed_of_seeds n)
         \<and> mset m1 = mset m2
         \<and> map_of m1 = map_of m2
         \<and> map_of m1 = map_of (map (\<lambda>s. (s, part s)) (choice seed_of_seeds n))"
proof -
  let ?rs = "choice seed_of_seeds n"
  let ?all = "map (\<lambda>s. (s, part s)) ?rs"
  let ?m1 = "concat (map (\<lambda>i. map (map (\<lambda>s. (s, part s)))
               (random_state_chunks n (max (n div cpu1) 5) ?rs) ! i) completion1)"
  let ?m2 = "concat (map (\<lambda>i. map (map (\<lambda>s. (s, part s)))
               (random_state_chunks n (max (n div cpu2) 5) ?rs) ! i) completion2)"
  have r1: "multi_leiden_clustering choice find_partition completion1 adata n seed_of_seeds resolution cpu1 = Inr ?m1"
    and e1: "mset ?m1 = mset ?all"
    using multi_leiden_result[of adata g choice seed_of_seeds n cpu1 find_partition resolution part
            completion1, OF g ok n cpu1 fp perm1] by blast+
  have r2: "multi_leiden_clustering choice find_partition completion2 adata n seed_of_seeds resolution cpu2 = Inr ?m2"
    and e2: "mset ?m2 = mset ?all"
    using multi_leiden_result[of adata g choice seed_of_seeds n cpu2 find_partition resolution part
            completion2, OF g ok n cpu2 fp perm2] by blast+
  have fst_all: "map fst ?all = ?rs" by (simp add: o_def)
  have k1: "mset (map fst ?m1) = mset ?rs"
    using arg_cong[OF e1, of "image_mset fst"] fst_all by (metis mset_map)
  have k2: "mset (map fst ?m2) = mset ?rs"
    using arg_cong[OF e2, of "image_mset fst"] fst_all by (metis mset_map)
  have dist: "distinct ?rs" using ok by (simp add: sample_ok_def)
  have d1: "distinct (map fst ?m1)" using mset_eq_imp_distinct_iff[OF k1] dist by simp
  have d2: "distinct (map fst ?m2)" using mset_eq_imp_distinct_iff[OF k2] dist by simp
  have dall: "distinct (map fst ?all)" using dist by (simp only: fst_all)
  have s1: "set ?m1 = set ?all" using e1 by (rule mset_eq_setD)
  have s2: "set ?m2 = set ?all" using e2 by (rule mset_eq_setD)
  have mo1: "map_of ?m1 = map_of ?all" using map_of_inject_set[OF d1 dall] s1 by simp
  have mo2: "map_of ?m2 = map_of ?all" using map_of_inject_set[OF d2 dall] s2 by simp
  from r1 r2 k1 k2 e1 e2 mo1 mo2 show ?thesis
    by (intro exI[of _ ?m1] exI[of _ ?m2] conjI) simp_all
qed

theorem multi_leiden_same_columns_witness:
  "ad_neighbors ex_fresh_adata = Some ()
   \<and> sample_ok ex_choice 0 10
   \<and> (0::nat) < 10 \<and> (0::nat) < 2 \<and> (0::nat) < 1
   \<and> list_all (\<lambda>s. ex_find_partition () 1 s = Inr [0, 0, 1, 1]) (ex_choice 0 10)
   \<and> mset [1, 0] = mset [0..<length (random_state_chunks 10 (max (10 div 2) 5) (ex_choice 0 10))]
   \<and> mset [0] = mset [0..<length (random_state_chunks 10 (max (10 div 1) 5) (ex_choice 0 10))]
   \<and> (\<exists>m1 m2.
           multi_leiden_clustering ex_choice ex_find_partition [1, 0] ex_fresh_adata 10 0 1 2 = Inr m1
         \<and> multi_leiden_clustering ex_choice ex_find_partition [0] ex_fresh_adata 10 0 1 1 = Inr m2
         \<and> mset (map fst m1) = mset (ex_choice 0 10)
         \<and> mset (map fst m2) = mset (ex_choice 0 10)
         \<and> mset m1 = mset m2
         \<and> map_of m1 = map_of m2
         \<and> map_of m1 = map_of (map (\<lambda>s. (s, [0, 0, 1, 1])) (ex_choice 0 10)))"
proof -
  have h1: "ad_neighbors ex_fresh_adata = Some ()" by (simp add: ex_fresh_adata_def)
  have h2: "sample_ok ex_choice 0 10" by (rule ex_sample_ok) simp
  have h3: "(0::nat) < 10" and h4: "(0::nat) < 2" and h5: "(0::nat) < 1" by simp_all
  have h6: "list_all (\<lambda>s. ex_find_partition () 1 s = Inr [0, 0, 1, 1]) (ex_choice 0 10)"
    by (simp add: ex_find_partition_def list_all_iff)
  have h7: "mset [1, 0] = mset [0..<length (random_state_chunks 10 (max (10 div 2) 5) (ex_choice 0 10))]"
    by (simp add: ex_chunks_10_5 upt_rec)
  have h8: "mset [0] = mset [0..<length (random_state_chunks 10 (max (10 div 1) 5) (ex_choice 0 10))]"
    by (simp add: ex_chunks_10_10)
  show ?thesis
    using h1 h2 h3 h4 h5 h6 h7 h8
      multi_leiden_same_columns[of ex_fresh_adata "()" ex_choice 0 10 2 1 ex_find_partition 1
        "\<lambda>s. [0, 0, 1, 1]" "[1, 0]" "[0]", OF h1 h2 h3 h4 h5 h6 h7 h8]
    by (intro conjI) assumption+
qed

text \<open>
  Claim C6 as stated fails on the column order: ten seeds in two chunks of five, the same
  deterministic community detection, and the two completion orders of the two workers
  give the columns in two different orders.
\<close>

theorem multi_leiden_column_order_differs:
  "map_sum id (map fst)
       (multi_leiden_clustering ex_choice ex_find_partition [0, 1] ex_fresh_adata 10 0 1 2)
     = Inr [0, 1, 2, 3, 4, 5, 6, 7, 8, 9]
   \<and> map_sum id (map fst)
       (multi_leiden_clustering ex_choice ex_find_partition [1, 0] ex_fresh_adata 10 0 1 2)
     = Inr [5, 6, 7, 8, 9, 0, 1, 2, 3, 4]"
  by (simp add: multi_leiden_clustering_def ex_fresh_adata_def Let_def ex_chunks_10_5
        ex_find_partition_def err_bind_def)

text \<open>
  Claim C5 at a failing input. \<^verbatim>\<open>leiden_kmode_clustering\<close> builds the ensemble of a
  resolution with \<^verbatim>\<open>n=300\<close> whatever \<open>leiden_repeats\<close> is: when no worker fails the matrix
  has 300 columns, also for \<open>leiden_repeats = 100\<close>.
\<close>

theorem leiden_repeats_ignored:
  assumes g: "ad_neighbors adata = Some g"
      and ok: "sample_ok (ext_choice ext) 0 300"
      and cpu: "0 < cpu"
      and fp: "list_all (\<lambda>s. ext_find_partition ext g resolution s = Inr (part s)) (ext_choice ext 0 300)"
      and perm: "mset (ext_leiden_completion ext resolution) =
                   mset [0..<length (random_state_chunks 300 (max (300 div cpu) 5) (ext_choice ext 0 300))]"
  shows "\<exists>m. resolution_ensemble ext adata cpu leiden_repeats resolution = Inr m \<and> length m = 300"
proof -
  let ?m = "concat (map (\<lambda>i. map (map (\<lambda>s. (s, part s)))
               (random_state_chunks 300 (max (300 div cpu) 5) (ext_choice ext 0 300)) ! i)
               (ext_leiden_completion ext resolution))"
  have n: "0 < (300::nat)" by simp
  have m: "multi_leiden_clustering (ext_choice ext) (ext_find_partition ext)
             (ext_leiden_completion ext resolution) adata 300 0 resolution cpu = Inr ?m"
    and e: "mset ?m = mset (map (\<lambda>s. (s, part s)) (ext_choice ext 0 300))"
    using multi_leiden_result[of adata g "ext_choice ext" 0 300 cpu "ext_find_partition ext"
            resolution part "ext_leiden_completion ext resolution", OF g ok n cpu fp perm]
    by blast+
  have "length ?m = length (map (\<lambda>s. (s, part s)) (ext_choice ext 0 300))"
    using e by (rule mset_eq_length)
  then have "length ?m = 300" using ok by (simp add: sample_ok_def)
  with m show ?thesis by (simp add: resolution_ensemble_def)
qed

theorem leiden_repeats_ignored_witness:
  "ad_neighbors ex_fresh_adata = Some ()
   \<and> sample_ok (ext_choice ex_ext) 0 300
   \<and> (0::nat) < 1
   \<and> list_all (\<lambda>s. ext_find_partition ex_ext () 1 s = Inr [0, 0, 1, 1]) (ext_choice ex_ext 0 300)
   \<and> mset (ext_leiden_completion ex_ext 1) =
         mset [0..<length (random_state_chunks 300 (max (300 div 1) 5) (ext_choice ex_ext 0 300))]
   \<and> (\<exists>m. resolution_ensemble ex_ext ex_fresh_adata 1 100 1 = Inr m \<and> length m = 300)"
proof -
  have h1: "ad_neighbors ex_fresh_adata = Some ()" by (simp add: ex_fresh_adata_def)
  have h2: "sample_ok (ext_choice ex_ext) 0 300" by (simp add: ex_ext_def ex_sample_ok)
  have h3: "(0::nat) < 1" by simp
  have h4: "list_all (\<lambda>s. ext_find_partition ex_ext () 1 s = Inr [0, 0, 1, 1]) (ext_choice ex_ext 0 300)"
    by (simp add: ex_ext_def ex_find_partition_def list_all_iff)
  have h5: "mset (ext_leiden_completion ex_ext 1) =
         mset [0..<length (random_state_chunks 300 (max (300 div 1) 5) (ext_choice ex_ext 0 300))]"
    using ex_chunks_300 by (simp add: ex_ext_def)
  show ?thesis
    using h1 h2 h3 h4 h5
      leiden_repeats_ignored[of ex_fresh_adata "()" ex_ext 1 1 "\<lambda>s. [0, 0, 1, 1]" 100,
        OF h1 h2 h3 h4 h5]
    by (intro conjI) assumption+
qed

subsection \<open>The automatic k range\<close>



end
